theory Spec2Isabelle
  imports Main
begin

section \<open>JavaScript primitives used by the engine\<close>

text \<open>
  \<^verbatim>\<open>Array.prototype.at\<close>: a negative index counts from the end, an index out of range
  gives \<^verbatim>\<open>undefined\<close> (here \<open>None\<close>).
\<close>

definition at_js :: "'a list \<Rightarrow> int \<Rightarrow> 'a option" where
  "at_js xs i =
     (let n = int (length xs); k = (if i < 0 then n + i else i)
      in if 0 \<le> k \<and> k < n then Some (xs ! nat k) else None)"

text \<open>\<^verbatim>\<open>Array.prototype.findIndex\<close>: the first index whose entry satisfies the predicate, else \<open>-1\<close>.\<close>

primrec findIndex :: "('a \<Rightarrow> bool) \<Rightarrow> 'a list \<Rightarrow> int" where
  "findIndex P [] = - 1"
| "findIndex P (x # xs) =
     (if P x then 0 else (let r = findIndex P xs in if r = - 1 then - 1 else r + 1))"

text \<open>\<^verbatim>\<open>String.prototype.startsWith\<close>.\<close>

definition startsWith :: "string \<Rightarrow> string \<Rightarrow> bool" where
  "startsWith s p = (take (length p) s = p)"

text \<open>
  \<^verbatim>\<open>String.prototype.trim\<close>. A JavaScript string is a sequence of UTF-16 code units,
  here numbers; \<^verbatim>\<open>trim\<close> strips the white space and the line terminators of
  ECMAScript from both ends: tab, line feed, vertical tab, form feed, carriage return,
  space, U+00A0, U+1680, U+2000 to U+200A, U+2028, U+2029, U+202F, U+205F, U+3000 and
  U+FEFF.
\<close>

type_synonym code_unit = nat

definition isWhiteSpace :: "code_unit \<Rightarrow> bool" where
  "isWhiteSpace u =
     (u \<in> set [0x09, 0x0A, 0x0B, 0x0C, 0x0D, 0x20, 0xA0, 0x1680, 0x2028, 0x2029, 0x202F,
                0x205F, 0x3000, 0xFEFF] \<or>
      (0x2000 \<le> u \<and> u \<le> 0x200A))"

definition trim :: "code_unit list \<Rightarrow> code_unit list" where
  "trim s = rev (dropWhile isWhiteSpace (rev (dropWhile isWhiteSpace s)))"

section \<open>Data model of \<^verbatim>\<open>Virtual.ts\<close>\<close>

text \<open>
  A document node is used by the engine through its reference only; references are
  modelled as numbers. An \<^verbatim>\<open>AccessibilityNode\<close> of the flattened tree carries the fields
  the engine reads: the six fields \<^verbatim>\<open>#getCurrentIndex\<close> compares, and \<^verbatim>\<open>parentDialog\<close>
  (\<open>None\<close> is \<^verbatim>\<open>null\<close>).
\<close>

type_synonym dom_ref = nat

record AccessibilityNode =
  accessibleDescription :: string
  accessibleName :: string
  accessibleValue :: string
  node :: dom_ref
  parentDialog :: "dom_ref option"
  role :: string
  spokenRole :: string

datatype error = ERR_VIRTUAL_NOT_STARTED | ERR_VIRTUAL_MISSING_CONTAINER | TypeError

text \<open>
  The private fields of class \<^verbatim>\<open>Virtual\<close>.
  \<^item> \<open>cursor\<close> says whether the overlay element exists.
  \<^item> \<open>disconnectDOMObserver\<close> is \<open>None\<close> for \<^verbatim>\<open>null\<close> and \<open>Some b\<close> for the disconnect
    function of an observer that is connected when \<open>b\<close> holds. \<^verbatim>\<open>start\<close> overwrites the
    field and \<^verbatim>\<open>stop\<close> calls the function without clearing the field, so
    \<open>leakedObservers\<close> counts the observers that are still connected and whose
    function the engine has lost.
  \<^item> \<open>boundHandleFocusChange\<close> is \<open>None\<close> for \<^verbatim>\<open>null\<close> and \<open>Some c\<close> for a bound handler
    that listens to \<^verbatim>\<open>focusin\<close> on the container \<open>c\<close>; \<open>leakedListeners\<close> counts the
    handlers that still listen and that the engine no longer holds.
\<close>

record state =
  activeNode :: "AccessibilityNode option"
  container :: "dom_ref option"
  cursor :: bool
  itemTextLog :: "string list"
  spokenPhraseLog :: "string list"
  treeCache :: "AccessibilityNode list option"
  disconnectDOMObserver :: "bool option"
  leakedObservers :: nat
  boundHandleFocusChange :: "dom_ref option"
  leakedListeners :: nat

definition initial :: state where
  "initial = \<lparr>activeNode = None, container = None, cursor = False, itemTextLog = [],
     spokenPhraseLog = [], treeCache = None, disconnectDOMObserver = None,
     leakedObservers = 0, boundHandleFocusChange = None, leakedListeners = 0\<rparr>"

text \<open>
  The collaborators of the engine that live outside \<^verbatim>\<open>Virtual.ts\<close> are parameters, gathered
  in one record that stands for the host document at the moment of a call:
  \<^item> \<open>synthesize c\<close> is \<^verbatim>\<open>tree ? flattenTree(c, tree, null) : []\<close> for
    \<^verbatim>\<open>tree = createAccessibilityTree(c)\<close>;
  \<^item> \<open>getAttribute e a\<close> is \<^verbatim>\<open>e.getAttribute(a)\<close> on the element referenced by \<open>e\<close>;
  \<^item> \<open>getSpokenPhrase\<close>, \<open>getItemText\<close> are the phrase renderers;
  \<^item> \<open>getLiveSpokenPhrase c m\<close> is \<^verbatim>\<open>getLiveSpokenPhrase({container: c, mutation: m})\<close>, with
    \<open>None\<close> for \<^verbatim>\<open>undefined\<close>;
  \<^item> \<open>LIVE_ASSERTIVE\<close>, \<open>LIVE_POLITE\<close> are the two members of the enumeration \<^verbatim>\<open>LIVE\<close>
    that \<^verbatim>\<open>#spokenPhraseLogWithoutLiveRegions\<close> reads.
  The type \<open>'m\<close> is the type of mutation records.
\<close>

record 'm env =
  synthesize :: "dom_ref \<Rightarrow> AccessibilityNode list"
  getAttribute :: "dom_ref \<Rightarrow> string \<Rightarrow> string option"
  getSpokenPhrase :: "AccessibilityNode \<Rightarrow> string"
  getItemText :: "AccessibilityNode \<Rightarrow> string"
  getLiveSpokenPhrase :: "dom_ref option \<Rightarrow> 'm \<Rightarrow> string option"
  LIVE_ASSERTIVE :: string
  LIVE_POLITE :: string

type_synonym 'a result = "(error + 'a) \<times> state"

section \<open>Private methods of \<^verbatim>\<open>Virtual\<close>\<close>

definition checkContainer :: "state \<Rightarrow> error option" where
  "checkContainer s = (case container s of None \<Rightarrow> Some ERR_VIRTUAL_NOT_STARTED | Some c \<Rightarrow> None)"

definition setActiveNode :: "AccessibilityNode \<Rightarrow> state \<Rightarrow> state" where
  "setActiveNode accessibilityNode s = s\<lparr>activeNode := Some accessibilityNode\<rparr>"

definition getAccessibilityTree :: "'m env \<Rightarrow> state \<Rightarrow> AccessibilityNode list \<times> state" where
  "getAccessibilityTree env s =
     (case treeCache s of
        Some tree \<Rightarrow> (tree, s)
      | None \<Rightarrow>
          (let tree = (case container s of None \<Rightarrow> [] | Some c \<Rightarrow> synthesize env c)
           in (tree, s\<lparr>treeCache := Some tree\<rparr>)))"

definition isModal :: "'m env \<Rightarrow> AccessibilityNode \<Rightarrow> bool" where
  "isModal env a =
     (case parentDialog a of
        None \<Rightarrow> False
      | Some d \<Rightarrow> getAttribute env d ''aria-modal'' = Some ''true'')"

definition getModalAccessibilityTree :: "'m env \<Rightarrow> state \<Rightarrow> AccessibilityNode list \<times> state" where
  "getModalAccessibilityTree env s =
     (let (tree, s1) = getAccessibilityTree env s in
      case activeNode s1 of
        None \<Rightarrow> (tree, s1)
      | Some a \<Rightarrow>
          if \<not> isModal env a then (tree, s1)
          else (filter (\<lambda>n. parentDialog a = parentDialog n) tree, s1))"

definition invalidateTreeCache :: "state \<Rightarrow> state" where
  "invalidateTreeCache s = s\<lparr>treeCache := None\<rparr>"

text \<open>
  \<^verbatim>\<open>mutations.map(getLiveSpokenPhrase).filter(Boolean).forEach(push)\<close>: the falsy results
  (\<^verbatim>\<open>undefined\<close> and the empty string) are dropped.
\<close>

definition truthy :: "string option \<Rightarrow> bool" where
  "truthy r = (case r of None \<Rightarrow> False | Some p \<Rightarrow> p \<noteq> [])"

definition announceLiveRegions :: "'m env \<Rightarrow> 'm list \<Rightarrow> state \<Rightarrow> state" where
  "announceLiveRegions env mutations s =
     s\<lparr>spokenPhraseLog := spokenPhraseLog s @
          map the (filter truthy (map (getLiveSpokenPhrase env (container s)) mutations))\<rparr>"

definition spokenPhraseLogWithoutLiveRegions :: "'m env \<Rightarrow> state \<Rightarrow> string list" where
  "spokenPhraseLogWithoutLiveRegions env s =
     filter (\<lambda>spokenPhrase. \<not> startsWith spokenPhrase (LIVE_ASSERTIVE env) \<and>
                            \<not> startsWith spokenPhrase (LIVE_POLITE env))
       (spokenPhraseLog s)"

text \<open>
  \<^verbatim>\<open>#updateState\<close>, in three parts: \<open>pushPair\<close> is the two pushes of an entry's item text
  and spoken phrase, \<open>announceTarget\<close> is the method from \<^verbatim>\<open>#setActiveNode\<close> to its end, and
  \<open>updateState\<close> is the whole. The comparison \<^verbatim>\<open>accessibilityNode.parentDialog !== this.#activeNode?.parentDialog\<close>
  has \<^verbatim>\<open>undefined\<close> on its right when there is no active node, which differs from every
  element. The dialog entry is looked up with \<^verbatim>\<open>find(...)!\<close>; when there is none the renderer
  is handed \<^verbatim>\<open>undefined\<close>, which is the \<open>TypeError\<close> branch, raised before anything is
  pushed.
\<close>

definition pushPair :: "'m env \<Rightarrow> AccessibilityNode \<Rightarrow> state \<Rightarrow> state" where
  "pushPair env n s =
     s\<lparr>itemTextLog := itemTextLog s @ [getItemText env n],
       spokenPhraseLog := spokenPhraseLog s @ [getSpokenPhrase env n]\<rparr>"

definition announceTarget :: "'m env \<Rightarrow> AccessibilityNode \<Rightarrow> bool \<Rightarrow> state \<Rightarrow> state" where
  "announceTarget env accessibilityNode ignoreIfNoChange s =
     (let s1 = setActiveNode accessibilityNode s;
          spokenPhrase = getSpokenPhrase env accessibilityNode;
          itemText = getItemText env accessibilityNode
      in if ignoreIfNoChange \<and>
            Some spokenPhrase = at_js (spokenPhraseLogWithoutLiveRegions env s1) (- 1) \<and>
            Some itemText = at_js (itemTextLog s1) (- 1)
         then s1
         else pushPair env accessibilityNode s1)"

definition updateState :: "'m env \<Rightarrow> AccessibilityNode \<Rightarrow> bool \<Rightarrow> state \<Rightarrow> unit result" where
  "updateState env accessibilityNode ignoreIfNoChange s =
     (if parentDialog accessibilityNode \<noteq> None \<and>
         Some (parentDialog accessibilityNode) \<noteq> map_option parentDialog (activeNode s)
      then
        (let (tree, s1) = getAccessibilityTree env s in
         case find (\<lambda>n. Some (node n) = parentDialog accessibilityNode) tree of
           None \<Rightarrow> (Inl TypeError, s1)
         | Some parentDialogNode \<Rightarrow>
             (Inr (), announceTarget env accessibilityNode ignoreIfNoChange
                        (pushPair env parentDialogNode s1)))
      else (Inr (), announceTarget env accessibilityNode ignoreIfNoChange s))"

text \<open>\<^verbatim>\<open>tree.at(i)!\<close> handed to \<^verbatim>\<open>#updateState\<close>: reading a field of \<^verbatim>\<open>undefined\<close> is a \<open>TypeError\<close>.\<close>

definition updateStateAt :: "'m env \<Rightarrow> AccessibilityNode list \<Rightarrow> int \<Rightarrow> bool \<Rightarrow> state \<Rightarrow> unit result" where
  "updateStateAt env tree i ignoreIfNoChange s =
     (case at_js tree i of
        None \<Rightarrow> (Inl TypeError, s)
      | Some newActiveNode \<Rightarrow> updateState env newActiveNode ignoreIfNoChange s)"

text \<open>
  \<^verbatim>\<open>#getCurrentIndex\<close>: with no active node every comparison is against \<^verbatim>\<open>undefined\<close> and
  fails.
\<close>

definition sameEntry :: "AccessibilityNode option \<Rightarrow> AccessibilityNode \<Rightarrow> bool" where
  "sameEntry active n =
     (case active of
        None \<Rightarrow> False
      | Some a \<Rightarrow>
          accessibleDescription n = accessibleDescription a \<and>
          accessibleName n = accessibleName a \<and>
          accessibleValue n = accessibleValue a \<and>
          node n = node a \<and>
          role n = role a \<and>
          spokenRole n = spokenRole a)"

definition getCurrentIndex :: "state \<Rightarrow> AccessibilityNode list \<Rightarrow> int" where
  "getCurrentIndex s tree = findIndex (sameEntry (activeNode s)) tree"


definition handleFocusChange :: "'m env \<Rightarrow> dom_ref \<Rightarrow> state \<Rightarrow> unit result" where
  "handleFocusChange env target s =
     (let (tree, s1) = getAccessibilityTree env (invalidateTreeCache s) in
      if tree = [] then (Inr (), s1)
      else case find (\<lambda>n. node n = target) tree of
             None \<Rightarrow> (Inr (), s1)
           | Some newActiveNode \<Rightarrow> updateState env newActiveNode True s1)"


text \<open>
  The host's notifications, one for each call of a callback of the engine. A mutation
  batch reaches the callback given to \<^verbatim>\<open>observeDOM\<close> while an observer of the engine is
  connected; a \<^verbatim>\<open>focusin\<close> event reaches \<^verbatim>\<open>#handleFocusChange\<close> while a handler of the
  engine listens. With two observers connected the host delivers a batch twice. A failure
  inside the asynchronous focus handler is not seen by any caller of the engine, so only
  the state is kept.
\<close>

datatype 'm notification = FocusIn dom_ref | Mutations "'m list"

definition observing :: "state \<Rightarrow> bool" where
  "observing s = (disconnectDOMObserver s = Some True \<or> 0 < leakedObservers s)"

definition listening :: "state \<Rightarrow> bool" where
  "listening s = (boundHandleFocusChange s \<noteq> None \<or> 0 < leakedListeners s)"

definition onMutations :: "'m env \<Rightarrow> 'm list \<Rightarrow> state \<Rightarrow> state" where
  "onMutations env mutations s = announceLiveRegions env mutations (invalidateTreeCache s)"

fun deliver :: "'m env \<Rightarrow> 'm notification \<Rightarrow> state \<Rightarrow> state" where
  "deliver env (FocusIn target) s =
     (if listening s then snd (handleFocusChange env target s) else s)"
| "deliver env (Mutations mutations) s =
     (if observing s then onMutations env mutations s else s)"


section \<open>Public methods of \<^verbatim>\<open>Virtual\<close>\<close>

text \<open>
  Every method runs to completion between two scheduling checkpoints (\<^verbatim>\<open>await tick()\<close>), so
  it is a function from the state before to the result and the state after. A method
  that throws keeps the state it had reached. The overlay of \<^verbatim>\<open>displayCursor\<close> is
  cosmetic: its style is left out, and the DOM calls that append and remove it, like those
  that add and remove the listener, are taken to succeed.
\<close>

record StartOptions =
  opt_container :: "dom_ref option"
  displayCursor :: bool
  rootDocument :: bool

definition createCursor :: "bool \<Rightarrow> state \<Rightarrow> state" where
  "createCursor hasDocument s = (if \<not> hasDocument then s else s\<lparr>cursor := True\<rparr>)"

text \<open>
  \<^verbatim>\<open>observeDOM\<close> is taken to connect a new observer and to return its disconnect function.
  A second \<^verbatim>\<open>start\<close> without \<^verbatim>\<open>stop\<close> overwrites the function and the bound handler that
  the engine holds; the observer and the handler they stood for stay in place.
\<close>

definition observeDOM :: "state \<Rightarrow> state" where
  "observeDOM s =
     s\<lparr>leakedObservers :=
          leakedObservers s + (if disconnectDOMObserver s = Some True then 1 else 0),
       disconnectDOMObserver := Some True\<rparr>"

definition addFocusListener :: "dom_ref \<Rightarrow> state \<Rightarrow> state" where
  "addFocusListener c s =
     s\<lparr>leakedListeners :=
          leakedListeners s + (if boundHandleFocusChange s \<noteq> None then 1 else 0),
       boundHandleFocusChange := Some c\<rparr>"

definition start :: "'m env \<Rightarrow> StartOptions \<Rightarrow> state \<Rightarrow> unit result" where
  "start env opts s =
     (case opt_container opts of
        None \<Rightarrow> (Inl ERR_VIRTUAL_MISSING_CONTAINER, s)
      | Some c \<Rightarrow>
          (let s1 = s\<lparr>container := Some c\<rparr>;
               s2 = (if displayCursor opts then createCursor (rootDocument opts) s1 else s1);
               s3 = observeDOM s2;
               (tree, s4) = getAccessibilityTree env s3
           in if tree = [] then (Inr (), s4)
              else updateStateAt env tree 0 False (addFocusListener c s4)))"



definition previous :: "'m env \<Rightarrow> state \<Rightarrow> unit result" where
  "previous env s =
     (case checkContainer s of
        Some e \<Rightarrow> (Inl e, s)
      | None \<Rightarrow>
          (let (tree, s1) = getModalAccessibilityTree env s in
           if tree = [] then (Inr (), s1)
           else
             (let currentIndex = getCurrentIndex s1 tree;
                  nextIndex = (if currentIndex = - 1 then 0 else currentIndex - 1)
              in updateStateAt env tree nextIndex False s1)))"

definition next_op :: "'m env \<Rightarrow> state \<Rightarrow> unit result" where
  "next_op env s =
     (case checkContainer s of
        Some e \<Rightarrow> (Inl e, s)
      | None \<Rightarrow>
          (let (tree, s1) = getModalAccessibilityTree env s in
           if tree = [] then (Inr (), s1)
           else
             (let currentIndex = getCurrentIndex s1 tree;
                  nextIndex = (if currentIndex = - 1 \<or> currentIndex = int (length tree) - 1
                               then 0 else currentIndex + 1)
              in updateStateAt env tree nextIndex False s1)))"

text \<open>
  \<^verbatim>\<open>perform\<close>: \<open>command c i tree\<close> stands for
  \<^verbatim>\<open>commands[command]?.({...options, container: c, currentIndex: i, tree})\<close>, with \<open>None\<close> when
  the result is not a number and \<open>Some k\<close> for a number that \<^verbatim>\<open>tree.at\<close> reads as the
  integer \<open>k\<close>. The guard \<^verbatim>\<open>#checkContainer()\<close> and the later read \<^verbatim>\<open>this.#container!\<close>
  are one case distinction on the container.
\<close>

type_synonym command = "dom_ref \<Rightarrow> int \<Rightarrow> AccessibilityNode list \<Rightarrow> int option"

definition perform :: "'m env \<Rightarrow> command \<Rightarrow> state \<Rightarrow> unit result" where
  "perform env command s =
     (case container s of
        None \<Rightarrow> (Inl ERR_VIRTUAL_NOT_STARTED, s)
      | Some c \<Rightarrow>
          (let (tree, s1) = getModalAccessibilityTree env s in
           if tree = [] then (Inr (), s1)
           else
             (let currentIndex = getCurrentIndex s1 tree in
              case command c currentIndex tree of
                None \<Rightarrow> (Inr (), s1)
              | Some nextIndex \<Rightarrow> updateStateAt env tree nextIndex False s1)))"







text \<open>\<^verbatim>\<open>log.at(-1) ?? ""\<close>.\<close>

definition lastOrEmpty :: "string list \<Rightarrow> string" where
  "lastOrEmpty log = (case at_js log (- 1) of None \<Rightarrow> [] | Some entry \<Rightarrow> entry)"

definition lastSpokenPhrase :: "state \<Rightarrow> string result" where
  "lastSpokenPhrase s =
     (case checkContainer s of
        Some e \<Rightarrow> (Inl e, s)
      | None \<Rightarrow> (Inr (lastOrEmpty (spokenPhraseLog s)), s))"

definition itemText :: "state \<Rightarrow> string result" where
  "itemText s =
     (case checkContainer s of
        Some e \<Rightarrow> (Inl e, s)
      | None \<Rightarrow> (Inr (lastOrEmpty (itemTextLog s)), s))"



definition clearSpokenPhraseLog :: "state \<Rightarrow> unit result" where
  "clearSpokenPhraseLog s =
     (case checkContainer s of
        Some e \<Rightarrow> (Inl e, s)
      | None \<Rightarrow> (Inr (), s\<lparr>spokenPhraseLog := []\<rparr>))"


section \<open>Node classification: \<^verbatim>\<open>getIsInert\<close> and \<^verbatim>\<open>isHiddenFromAccessibilityTree\<close>\<close>

text \<open>
  What the two classifiers read of a document node: its node type, its text content in
  code units (\<^verbatim>\<open>null\<close> only for a document or a doctype), its attributes, and whether its
  \<^verbatim>\<open>hidden\<close> property is \<^verbatim>\<open>true\<close>. A call into the host that may throw has an
  \<open>outcome\<close>.
\<close>

datatype 'a outcome = Throws | Returns 'a

record computedStyle =
  visibility :: string
  display :: string

record DomNode =
  nodeType :: nat
  textContent :: "code_unit list option"
  attributes :: "(string \<times> string) list"
  hidden :: bool

definition TEXT_NODE :: nat where
  "TEXT_NODE = 3"

definition hasAttribute :: "DomNode \<Rightarrow> string \<Rightarrow> bool" where
  "hasAttribute n a = (map_of (attributes n) a \<noteq> None)"

definition nodeGetAttribute :: "DomNode \<Rightarrow> string \<Rightarrow> string option" where
  "nodeGetAttribute n a = map_of (attributes n) a"

text \<open>
  The helpers imported by the two files are parameters: \<^verbatim>\<open>isElement\<close>, \<^verbatim>\<open>getLocalName\<close>,
  \<^verbatim>\<open>isDialogRole\<close>, the \<^verbatim>\<open>tabbable\<close> library (the tabbable descendants of a node) and the
  window's \<^verbatim>\<open>getComputedStyle\<close> (\<open>Returns None\<close> when the owner document has no
  \<^verbatim>\<open>defaultView\<close>).
\<close>

record helpers =
  isElement :: "DomNode \<Rightarrow> bool"
  getLocalName :: "DomNode \<Rightarrow> string"
  isDialogRole :: "string \<Rightarrow> bool"
  tabbable :: "DomNode \<Rightarrow> dom_ref list outcome"
  getComputedStyle :: "DomNode \<Rightarrow> computedStyle option outcome"

definition getIsInert :: "helpers \<Rightarrow> bool \<Rightarrow> DomNode \<Rightarrow> string \<Rightarrow> bool" where
  "getIsInert h inheritedImplicitInert n role' =
     (if \<not> isElement h n then inheritedImplicitInert
      else
        (let isNativeModalDialog = (getLocalName h n = ''dialog'' \<and> hasAttribute n ''open'');
             isNonNativeModalDialog = (isDialogRole h role' \<and> hasAttribute n ''aria-modal'');
             isModalDialog = (isNonNativeModalDialog \<or> isNativeModalDialog);
             isExplicitInert = hasAttribute n ''inert''
         in isExplicitInert \<or> (inheritedImplicitInert \<and> \<not> isModalDialog)))"

text \<open>The sentence of the specification about inert nodes, word for word.\<close>

definition spec_isModalDialog :: "helpers \<Rightarrow> DomNode \<Rightarrow> string \<Rightarrow> bool" where
  "spec_isModalDialog h n role' =
     ((getLocalName h n = ''dialog'' \<and> hasAttribute n ''open'') \<or>
      (isDialogRole h role' \<and> hasAttribute n ''aria-modal''))"

definition spec_isInert :: "helpers \<Rightarrow> bool \<Rightarrow> DomNode \<Rightarrow> string \<Rightarrow> bool" where
  "spec_isInert h inheritedImplicitInert n role' =
     (hasAttribute n ''inert'' \<or> (inheritedImplicitInert \<and> \<not> spec_isModalDialog h n role'))"

text \<open>
  \<^verbatim>\<open>isHiddenFromAccessibilityTree\<close>. The module's flag \<^verbatim>\<open>warned\<close> is passed in and
  returned. \<open>textTest\<close> is the condition
  \<^verbatim>\<open>node.nodeType === TEXT_NODE && node.textContent!.trim()\<close>, which stands before the
  \<^verbatim>\<open>try\<close>; \<open>tryBody\<close> is the body of the \<^verbatim>\<open>try\<close> with its \<^verbatim>\<open>catch\<close>, which answers
  \<^verbatim>\<open>true\<close>.
\<close>

definition textTest :: "DomNode \<Rightarrow> bool outcome" where
  "textTest n =
     (if nodeType n \<noteq> TEXT_NODE then Returns False
      else case textContent n of None \<Rightarrow> Throws | Some t \<Rightarrow> Returns (trim t \<noteq> []))"

definition styleHides :: "helpers \<Rightarrow> DomNode \<Rightarrow> bool" where
  "styleHides h n =
     (case getComputedStyle h n of
        Throws \<Rightarrow> True
      | Returns None \<Rightarrow> False
      | Returns (Some computed) \<Rightarrow> visibility computed = ''hidden'' \<or> display computed = ''none'')"

definition tryBody :: "helpers \<Rightarrow> bool \<Rightarrow> DomNode \<Rightarrow> bool \<times> bool" where
  "tryBody h warned n =
     (if hidden n then (True, warned)
      else if nodeGetAttribute n ''aria-hidden'' = Some ''true'' then
        (case tabbable h n of
           Throws \<Rightarrow> (True, warned)
         | Returns ts \<Rightarrow>
             if length ts = 0 then (True, warned)
             else (styleHides h n, True))
      else (styleHides h n, warned))"

definition isHiddenFromAccessibilityTree ::
  "helpers \<Rightarrow> bool \<Rightarrow> DomNode option \<Rightarrow> bool outcome \<times> bool" where
  "isHiddenFromAccessibilityTree h warned nd =
     (case nd of
        None \<Rightarrow> (Returns True, warned)
      | Some n \<Rightarrow>
          (case textTest n of
             Throws \<Rightarrow> (Throws, warned)
           | Returns True \<Rightarrow> (Returns False, warned)
           | Returns False \<Rightarrow>
               if \<not> isElement h n then (Returns True, warned)
               else (let (r, warned') = tryBody h warned n in (Returns r, warned'))))"

section \<open>Reading the claims\<close>

text \<open>
  One entry of the spoken-phrase log per qualifying mutation, in batch order, written as a
  recursion over the batch: a mutation qualifies when the live-region renderer gives it a
  phrase that is not empty.
\<close>

primrec liveEntries :: "('m \<Rightarrow> string option) \<Rightarrow> 'm list \<Rightarrow> string list" where
  "liveEntries g [] = []"
| "liveEntries g (m # ms) =
     (case g m of
        None \<Rightarrow> liveEntries g ms
      | Some p \<Rightarrow> if p = [] then liveEntries g ms else p # liveEntries g ms)"

text \<open>
  The no-change test of \<^verbatim>\<open>#updateState\<close> on the logs of a state: the phrase of the entry
  is the last entry of the spoken-phrase log once the live-region announcements are left
  out, and its item text is the last entry of the item-text log.
\<close>

definition noChange :: "'m env \<Rightarrow> AccessibilityNode \<Rightarrow> state \<Rightarrow> bool" where
  "noChange env n s =
     (Some (getSpokenPhrase env n) = at_js (spokenPhraseLogWithoutLiveRegions env s) (- 1) \<and>
      Some (getItemText env n) = at_js (itemTextLog s) (- 1))"

text \<open>Calling \<^verbatim>\<open>next()\<close> \<open>k\<close> times in a row on a document that does not change.\<close>

primrec nextTimes :: "nat \<Rightarrow> 'm env \<Rightarrow> state \<Rightarrow> unit result" where
  "nextTimes 0 env s = (Inr (), s)"
| "nextTimes (Suc k) env s =
     (case next_op env s of
        (Inl e, s') \<Rightarrow> (Inl e, s')
      | (Inr u, s') \<Rightarrow> nextTimes k env s')"

text \<open>
  The six fields by which \<^verbatim>\<open>#getCurrentIndex\<close> recognises an entry, and two properties of
  a flattened tree: no two entries agree on all six, and every dialog that an entry
  names as its \<^verbatim>\<open>parentDialog\<close> has an entry of its own.
\<close>

definition identity :: "AccessibilityNode \<Rightarrow> string \<times> string \<times> string \<times> dom_ref \<times> string \<times> string" where
  "identity n =
     (accessibleDescription n, accessibleName n, accessibleValue n, node n, role n, spokenRole n)"

definition dialogsListed :: "AccessibilityNode list \<Rightarrow> bool" where
  "dialogsListed tree =
     list_all (\<lambda>n. parentDialog n = None \<or>
                    find (\<lambda>m. Some (node m) = parentDialog n) tree \<noteq> None) tree"

text \<open>
  The modal-scoped sequence seen from an entry \<open>a\<close> of the document under container \<open>c\<close>,
  and the engine with its cursor on entry \<open>i\<close> of a sequence \<open>T\<close>: started on \<open>c\<close>, with a
  tree cache that is empty or holds the tree of the document as it is.
\<close>

definition scopeOf :: "'m env \<Rightarrow> dom_ref \<Rightarrow> AccessibilityNode \<Rightarrow> AccessibilityNode list" where
  "scopeOf env c a =
     (if isModal env a then filter (\<lambda>n. parentDialog a = parentDialog n) (synthesize env c)
      else synthesize env c)"

definition cursorAt :: "'m env \<Rightarrow> dom_ref \<Rightarrow> AccessibilityNode list \<Rightarrow> nat \<Rightarrow> state \<Rightarrow> bool" where
  "cursorAt env c T i s =
     (container s = Some c \<and>
      (treeCache s = None \<or> treeCache s = Some (synthesize env c)) \<and>
      i < length T \<and> activeNode s = Some (T ! i))"

section \<open>Example documents\<close>

definition mkNode :: "dom_ref \<Rightarrow> dom_ref option \<Rightarrow> string \<Rightarrow> string \<Rightarrow> string \<Rightarrow> AccessibilityNode" where
  "mkNode r pd rl spoken name =
     \<lparr>accessibleDescription = [], accessibleName = name, accessibleValue = [], node = r,
      parentDialog = pd, role = rl, spokenRole = spoken\<rparr>"

definition demoPhrase :: "AccessibilityNode \<Rightarrow> string" where
  "demoPhrase n =
     (if accessibleName n = [] then spokenRole n else spokenRole n @ '', '' @ accessibleName n)"

text \<open>
  A page (reference 0) with a button (1) and a dialog (2) that holds two buttons (3, 4).
  The opening and the closing entry of the dialog name the dialog as their
  \<^verbatim>\<open>parentDialog\<close>, as its buttons do.
  The mutation records of the example are the text added to a polite live region, or
  \<open>None\<close> for a mutation outside every live region.
\<close>

definition pageNode :: AccessibilityNode where
  "pageNode = mkNode 0 None ''document'' ''document'' []"

definition openButton :: AccessibilityNode where
  "openButton = mkNode 1 None ''button'' ''button'' ''Open''"

definition dialogNode :: AccessibilityNode where
  "dialogNode = mkNode 2 (Some 2) ''dialog'' ''dialog'' ''Settings''"

definition closeButton :: AccessibilityNode where
  "closeButton = mkNode 3 (Some 2) ''button'' ''button'' ''Close''"

definition saveButton :: AccessibilityNode where
  "saveButton = mkNode 4 (Some 2) ''button'' ''button'' ''Save''"

definition endOfDialog :: AccessibilityNode where
  "endOfDialog = mkNode 2 (Some 2) ''dialog'' ''end of dialog'' ''Settings''"

definition endOfPage :: AccessibilityNode where
  "endOfPage = mkNode 0 None ''document'' ''end of document'' []"

definition demoTree :: "AccessibilityNode list" where
  "demoTree =
     [pageNode, openButton, dialogNode, closeButton, saveButton, endOfDialog, endOfPage]"

text \<open>
  A second page, where a button outside the dialog has the name and role of a button
  inside it.
\<close>

definition outerClose :: AccessibilityNode where
  "outerClose = mkNode 1 None ''button'' ''button'' ''Close''"

definition twinTree :: "AccessibilityNode list" where
  "twinTree = [pageNode, outerClose, dialogNode, closeButton, endOfDialog, endOfPage]"

definition demoLive :: "dom_ref option \<Rightarrow> string option \<Rightarrow> string option" where
  "demoLive c m = (case m of None \<Rightarrow> Some [] | Some t \<Rightarrow> Some (''polite: '' @ t))"

definition demoEnv :: "AccessibilityNode list \<Rightarrow> string \<Rightarrow> (string option) env" where
  "demoEnv tree modal =
     \<lparr>synthesize = (\<lambda>c. if c = 0 then tree else []),
      getAttribute = (\<lambda>e a. if e = 2 \<and> a = ''aria-modal'' then Some modal else None),
      getSpokenPhrase = demoPhrase,
      getItemText = accessibleName,
      getLiveSpokenPhrase = demoLive,
      LIVE_ASSERTIVE = ''assertive'',
      LIVE_POLITE = ''polite''\<rparr>"

definition demoOptions :: StartOptions where
  "demoOptions = \<lparr>opt_container = Some 0, displayCursor = False, rootDocument = True\<rparr>"

text \<open>The engine on a given entry of the example page, with the tree cached.\<close>

definition demoState :: "AccessibilityNode \<Rightarrow> string list \<Rightarrow> string list \<Rightarrow> state" where
  "demoState a texts phrases =
     \<lparr>activeNode = Some a, container = Some 0, cursor = False, itemTextLog = texts,
      spokenPhraseLog = phrases, treeCache = Some demoTree, disconnectDOMObserver = Some True,
      leakedObservers = 0, boundHandleFocusChange = Some 0, leakedListeners = 0\<rparr>"

text \<open>An element for the classifiers, and helpers that read it as the DOM would.\<close>

definition demoElement :: "(string \<times> string) list \<Rightarrow> DomNode" where
  "demoElement attrs = \<lparr>nodeType = 1, textContent = Some [], attributes = attrs, hidden = False\<rparr>"

definition demoHelpers :: "string \<Rightarrow> dom_ref list outcome \<Rightarrow> computedStyle option outcome \<Rightarrow> helpers" where
  "demoHelpers name ts style =
     \<lparr>isElement = (\<lambda>n. nodeType n = 1),
      getLocalName = (\<lambda>n. name),
      isDialogRole = (\<lambda>r. r = ''dialog'' \<or> r = ''alertdialog''),
      tabbable = (\<lambda>n. ts),
      getComputedStyle = (\<lambda>n. style)\<rparr>"

section \<open>Facts about the primitives\<close>

lemma at_js_last: "at_js xs (- 1) = (if xs = [] then None else Some (last xs))"
  by (cases xs rule: rev_cases) (auto simp: at_js_def Let_def nth_append)

lemma lastOrEmpty_last: "lastOrEmpty log = (if log = [] then [] else last log)"
  by (simp add: lastOrEmpty_def at_js_last)

lemma liveEntries_pipeline:
  "map the (filter truthy (map g ms)) = liveEntries g ms"
  by (induction ms) (auto simp: truthy_def split: option.splits)

lemma length_liveEntries:
  "length (liveEntries g ms) = length (filter (\<lambda>m. truthy (g m)) ms)"
  by (induction ms) (auto simp: truthy_def split: option.splits)

lemma start_empty_tree:
  "start (demoEnv [] ''true'') demoOptions initial =
     (Inr (), initial\<lparr>container := Some 0, treeCache := Some [], disconnectDOMObserver := Some True\<rparr>)"
  by (simp add: start_def observeDOM_def demoEnv_def demoOptions_def initial_def getAccessibilityTree_def)

section \<open>The log readers and the guard of every operation\<close>

text \<open>
  C10. On a started engine \<^verbatim>\<open>lastSpokenPhrase()\<close> returns the last entry of the
  spoken-phrase log, and the empty string when the log is empty, as it is after
  \<^verbatim>\<open>clearSpokenPhraseLog()\<close>; it returns and does not fail, and leaves the state as it
  was.
\<close>

theorem lastSpokenPhrase_last_or_empty:
  assumes "container s \<noteq> None"
  shows "lastSpokenPhrase s =
           (Inr (if spokenPhraseLog s = [] then [] else last (spokenPhraseLog s)), s) \<and>
         fst (lastSpokenPhrase (snd (clearSpokenPhraseLog s))) = Inr []"
proof -
  from assms have k: "checkContainer s = None"
    by (auto simp: checkContainer_def)
  then have k': "checkContainer (s\<lparr>spokenPhraseLog := []\<rparr>) = None"
    by (simp add: checkContainer_def)
  have "lastSpokenPhrase s =
          (Inr (if spokenPhraseLog s = [] then [] else last (spokenPhraseLog s)), s)"
    by (simp add: lastSpokenPhrase_def k lastOrEmpty_last)
  moreover have "fst (lastSpokenPhrase (snd (clearSpokenPhraseLog s))) = Inr []"
    by (simp add: lastSpokenPhrase_def clearSpokenPhraseLog_def k k' lastOrEmpty_last)
  ultimately show ?thesis by simp
qed

text \<open>
  The same on two engines: one started over an empty tree, whose log is empty, and one
  that has read two entries.
\<close>

theorem lastSpokenPhrase_last_or_empty_witness:
  "fst (lastSpokenPhrase (snd (start (demoEnv [] ''true'') demoOptions initial))) = Inr [] \<and>
   fst (lastSpokenPhrase (demoState openButton [[], ''Open''] [''document'', ''button, Open'']))
     = Inr ''button, Open''"
proof -
  have a: "container (snd (start (demoEnv [] ''true'') demoOptions initial)) \<noteq> None"
    by (simp add: start_empty_tree)
  have a': "spokenPhraseLog (snd (start (demoEnv [] ''true'') demoOptions initial)) = []"
    by (simp add: start_empty_tree, simp add: initial_def)
  have b: "container (demoState openButton [[], ''Open''] [''document'', ''button, Open'']) \<noteq> None"
    by (simp add: demoState_def)
  have b': "spokenPhraseLog (demoState openButton [[], ''Open''] [''document'', ''button, Open''])
              = [''document'', ''button, Open'']"
    by (simp add: demoState_def)
  show ?thesis
    using lastSpokenPhrase_last_or_empty [OF a] lastSpokenPhrase_last_or_empty [OF b]
    by (simp add: a' b')
qed



section \<open>Live regions\<close>

text \<open>
  C9. The observer callback on a batch of mutations appends to the spoken-phrase log one
  entry per qualifying mutation, in batch order, and nothing for the others; the
  item-text log and the active node are as before. A mutation batch delivered while the
  observer is connected is handled by that callback.
\<close>

theorem live_regions_only_spoken_log:
  "spokenPhraseLog (onMutations env ms s) =
     spokenPhraseLog s @ liveEntries (getLiveSpokenPhrase env (container s)) ms \<and>
   length (spokenPhraseLog (onMutations env ms s)) =
     length (spokenPhraseLog s) +
     length (filter (\<lambda>m. truthy (getLiveSpokenPhrase env (container s) m)) ms) \<and>
   itemTextLog (onMutations env ms s) = itemTextLog s \<and>
   activeNode (onMutations env ms s) = activeNode s \<and>
   deliver env (Mutations ms) (s\<lparr>disconnectDOMObserver := Some True\<rparr>) =
     onMutations env ms (s\<lparr>disconnectDOMObserver := Some True\<rparr>)"
  by (simp add: onMutations_def announceLiveRegions_def invalidateTreeCache_def observing_def
      liveEntries_pipeline length_liveEntries)

text \<open>A batch of four mutations, two of them in a polite live region.\<close>

theorem live_regions_only_spoken_log_witness:
  "spokenPhraseLog (onMutations (demoEnv demoTree ''true'') [None, Some ''saved'', None, Some ''sent'']
      (demoState openButton [[], ''Open''] [''document'', ''button, Open''])) =
     [''document'', ''button, Open'', ''polite: saved'', ''polite: sent'']"
  using live_regions_only_spoken_log [of "demoEnv demoTree ''true''"
      "[None, Some ''saved'', None, Some ''sent'']"
      "demoState openButton [[], ''Open''] [''document'', ''button, Open'']"]
  by (simp add: demoEnv_def demoState_def demoLive_def)

section \<open>Inert nodes\<close>

text \<open>
  C7. For an element, \<^verbatim>\<open>getIsInert\<close> is true exactly when the element has the
  \<^verbatim>\<open>inert\<close> attribute, or the inherited inert flag is set and the element is not a modal
  dialog; a modal dialog being a \<^verbatim>\<open>dialog\<close> element with the \<^verbatim>\<open>open\<close> attribute, or an
  element with a dialog role and an \<^verbatim>\<open>aria-modal\<close> attribute.
\<close>

theorem getIsInert_matches_spec:
  assumes "isElement h n"
  shows "getIsInert h inheritedImplicitInert n r = spec_isInert h inheritedImplicitInert n r"
  using assms by (auto simp: getIsInert_def spec_isInert_def spec_isModalDialog_def Let_def)

text \<open>
  An open dialog escapes an inert ancestor, a plain element inherits it, and an element
  with the attribute is inert on its own.
\<close>

theorem getIsInert_matches_spec_witness:
  "getIsInert (demoHelpers ''dialog'' (Returns []) (Returns None)) True
     (demoElement [(''open'', [])]) ''dialog'' = False \<and>
   getIsInert (demoHelpers ''div'' (Returns []) (Returns None)) True
     (demoElement [(''class'', ''x'')]) ''generic'' = True \<and>
   getIsInert (demoHelpers ''div'' (Returns []) (Returns None)) False
     (demoElement [(''inert'', [])]) ''generic'' = True"
proof -
  have e: "isElement (demoHelpers nm (Returns []) (Returns None)) (demoElement at)" for nm at
    by (simp add: demoHelpers_def demoElement_def)
  show ?thesis
    using getIsInert_matches_spec [OF e, where inheritedImplicitInert = True and r = "''dialog''"
        and nm1 = "''dialog''" and at1 = "[(''open'', [])]"]
      getIsInert_matches_spec [OF e, where inheritedImplicitInert = True and r = "''generic''"
        and nm1 = "''div''" and at1 = "[(''class'', ''x'')]"]
      getIsInert_matches_spec [OF e, where inheritedImplicitInert = False and r = "''generic''"
        and nm1 = "''div''" and at1 = "[(''inert'', [])]"]
    by (simp add: spec_isInert_def spec_isModalDialog_def hasAttribute_def demoHelpers_def demoElement_def)
qed

section \<open>The steps of the engine\<close>

lemma at_js_in_set: "at_js xs i = Some x \<Longrightarrow> x \<in> set xs"
  by (auto simp: at_js_def Let_def split: if_splits)

lemma at_js_nat: "i < length xs \<Longrightarrow> at_js xs (int i) = Some (xs ! i)"
  by (simp add: at_js_def Let_def)

lemma getAccessibilityTree_fields:
  "activeNode (snd (getAccessibilityTree env s)) = activeNode s"
  "container (snd (getAccessibilityTree env s)) = container s"
  "itemTextLog (snd (getAccessibilityTree env s)) = itemTextLog s"
  "spokenPhraseLog (snd (getAccessibilityTree env s)) = spokenPhraseLog s"
  "treeCache (snd (getAccessibilityTree env s)) = Some (fst (getAccessibilityTree env s))"
  by (simp_all add: getAccessibilityTree_def Let_def split: option.splits)

lemma getAccessibilityTree_again:
  "getAccessibilityTree env (snd (getAccessibilityTree env s)) = getAccessibilityTree env s"
  by (simp add: getAccessibilityTree_def Let_def split: option.splits)

lemma getModalAccessibilityTree_snd:
  "snd (getModalAccessibilityTree env s) = snd (getAccessibilityTree env s)"
  by (simp add: getModalAccessibilityTree_def Let_def split_beta split: option.splits)

lemma getModalAccessibilityTree_fst:
  "fst (getModalAccessibilityTree env s) =
     (case activeNode s of
        None \<Rightarrow> fst (getAccessibilityTree env s)
      | Some a \<Rightarrow> if isModal env a
                  then filter (\<lambda>n. parentDialog a = parentDialog n) (fst (getAccessibilityTree env s))
                  else fst (getAccessibilityTree env s))"
  by (simp add: getModalAccessibilityTree_def Let_def split_beta getAccessibilityTree_fields
      split: option.splits)

lemma announceTarget_fields:
  "activeNode (announceTarget env n ig s) = Some n"
  "container (announceTarget env n ig s) = container s"
  "treeCache (announceTarget env n ig s) = treeCache s"
  by (simp_all add: announceTarget_def setActiveNode_def pushPair_def Let_def)

text \<open>\<^verbatim>\<open>#updateState\<close> with and without the announcement of the dialog.\<close>

lemma updateState_same_dialog:
  assumes "parentDialog n = None \<or> map_option parentDialog (activeNode s) = Some (parentDialog n)"
  shows "updateState env n ig s = (Inr (), announceTarget env n ig s)"
proof -
  have "parentDialog n = None \<or> Some (parentDialog n) = map_option parentDialog (activeNode s)"
    using assms by (metis)
  then show ?thesis
    by (elim disjE) (simp_all add: updateState_def)
qed

lemma find_Some_holds: "find P xs = Some x \<Longrightarrow> P x"
  by (induction xs) (auto split: if_splits)

lemma updateState_new_dialog:
  assumes "find (\<lambda>m. Some (node m) = parentDialog n) (fst (getAccessibilityTree env s)) = Some dn"
    and "map_option parentDialog (activeNode s) \<noteq> Some (parentDialog n)"
  shows "updateState env n ig s =
           (Inr (), announceTarget env n ig (pushPair env dn (snd (getAccessibilityTree env s))))"
proof -
  have "Some (node dn) = parentDialog n"
    using find_Some_holds [OF assms(1)] .
  then have nn: "parentDialog n \<noteq> None"
    by (cases "parentDialog n") simp_all
  have ne: "Some (parentDialog n) \<noteq> map_option parentDialog (activeNode s)"
    using assms(2) by (rule not_sym)
  show ?thesis
    by (simp add: updateState_def split_beta nn ne assms(1))
qed

lemma updateState_ok:
  assumes "parentDialog n = None \<or>
           find (\<lambda>m. Some (node m) = parentDialog n) (fst (getAccessibilityTree env s)) \<noteq> None"
  shows "fst (updateState env n ig s) = Inr ()"
    and "activeNode (snd (updateState env n ig s)) = Some n"
    and "container (snd (updateState env n ig s)) = container s"
    and "treeCache (snd (updateState env n ig s)) = treeCache s \<or>
         treeCache (snd (updateState env n ig s)) = Some (fst (getAccessibilityTree env s))"
proof -
  consider (same) "parentDialog n = None \<or> map_option parentDialog (activeNode s) = Some (parentDialog n)"
    | (new) dn where "find (\<lambda>m. Some (node m) = parentDialog n) (fst (getAccessibilityTree env s)) = Some dn"
        "map_option parentDialog (activeNode s) \<noteq> Some (parentDialog n)"
    using assms by auto
  then have "fst (updateState env n ig s) = Inr () \<and>
    activeNode (snd (updateState env n ig s)) = Some n \<and>
    container (snd (updateState env n ig s)) = container s \<and>
    (treeCache (snd (updateState env n ig s)) = treeCache s \<or>
         treeCache (snd (updateState env n ig s)) = Some (fst (getAccessibilityTree env s)))"
  proof cases
    case same
    then show ?thesis
      by (simp add: updateState_same_dialog announceTarget_fields)
  next
    case new
    then show ?thesis
      by (simp add: updateState_new_dialog announceTarget_fields pushPair_def getAccessibilityTree_fields)
  qed
  then show "fst (updateState env n ig s) = Inr ()"
    and "activeNode (snd (updateState env n ig s)) = Some n"
    and "container (snd (updateState env n ig s)) = container s"
    and "treeCache (snd (updateState env n ig s)) = treeCache s \<or>
         treeCache (snd (updateState env n ig s)) = Some (fst (getAccessibilityTree env s))"
    by simp_all
qed


text \<open>The navigation methods on a started engine whose scoped tree is not empty.\<close>

lemma previous_unfold:
  assumes "container s \<noteq> None" and "fst (getModalAccessibilityTree env s) \<noteq> []"
  shows "previous env s =
     updateStateAt env (fst (getModalAccessibilityTree env s))
       (if getCurrentIndex s (fst (getModalAccessibilityTree env s)) = - 1 then 0
        else getCurrentIndex s (fst (getModalAccessibilityTree env s)) - 1)
       False (snd (getAccessibilityTree env s))"
  using assms
  by (auto simp: previous_def checkContainer_def split_beta Let_def getModalAccessibilityTree_snd
      getCurrentIndex_def getAccessibilityTree_fields)

lemma next_unfold:
  assumes "container s \<noteq> None" and "fst (getModalAccessibilityTree env s) \<noteq> []"
  shows "next_op env s =
     updateStateAt env (fst (getModalAccessibilityTree env s))
       (if getCurrentIndex s (fst (getModalAccessibilityTree env s)) = - 1 \<or>
           getCurrentIndex s (fst (getModalAccessibilityTree env s)) =
             int (length (fst (getModalAccessibilityTree env s))) - 1
        then 0
        else getCurrentIndex s (fst (getModalAccessibilityTree env s)) + 1)
       False (snd (getAccessibilityTree env s))"
  using assms
  by (auto simp: next_op_def checkContainer_def split_beta Let_def getModalAccessibilityTree_snd
      getCurrentIndex_def getAccessibilityTree_fields)

lemma scoped_subset:
  "set (fst (getModalAccessibilityTree env s)) \<subseteq> set (fst (getAccessibilityTree env s))"
  by (auto simp: getModalAccessibilityTree_fst split: option.splits)

lemma dialogsListed_find:
  assumes "dialogsListed tree" and "n \<in> set tree"
  shows "parentDialog n = None \<or> find (\<lambda>m. Some (node m) = parentDialog n) tree \<noteq> None"
  using assms by (auto simp: dialogsListed_def list_all_iff)


section \<open>Moving backwards from the first entry\<close>

text \<open>
  C1, as the code has it. On a started engine whose modal-scoped sequence is not empty and
  whose active node is found at index 0, \<^verbatim>\<open>previous()\<close> returns and moves the cursor to
  the last entry of the sequence: the index it computes is \<open>-1\<close>, which \<^verbatim>\<open>tree.at\<close>
  reads from the end. With a single entry the cursor stays on it.
\<close>

theorem previous_wraps_to_last:
  assumes "container s \<noteq> None"
    and "dialogsListed (fst (getAccessibilityTree env s))"
    and "fst (getModalAccessibilityTree env s) \<noteq> []"
    and "getCurrentIndex s (fst (getModalAccessibilityTree env s)) = 0"
  shows "fst (previous env s) = Inr () \<and>
         activeNode (snd (previous env s)) = Some (last (fst (getModalAccessibilityTree env s)))"
proof -
  let ?T = "fst (getModalAccessibilityTree env s)"
  let ?s1 = "snd (getAccessibilityTree env s)"
  have p: "previous env s = updateStateAt env ?T (- 1) False ?s1"
    using assms by (simp add: previous_unfold)
  have l: "at_js ?T (- 1) = Some (last ?T)"
    using assms(3) by (simp add: at_js_last)
  have "last ?T \<in> set (fst (getAccessibilityTree env s))"
    using assms(3) scoped_subset [of env s] by auto
  then have d: "parentDialog (last ?T) = None \<or>
      find (\<lambda>m. Some (node m) = parentDialog (last ?T)) (fst (getAccessibilityTree env ?s1)) \<noteq> None"
    using dialogsListed_find [OF assms(2)] by (simp add: getAccessibilityTree_again)
  show ?thesis
    using updateState_ok(1,2) [OF d] by (simp add: p updateStateAt_def l)
qed

text \<open>Unfolding the engine and the example documents, for evaluation.\<close>

lemmas engine_defs =
  next_op_def previous_def perform_def checkContainer_def getModalAccessibilityTree_def
  getAccessibilityTree_def isModal_def getCurrentIndex_def sameEntry_def updateStateAt_def
  updateState_def announceTarget_def setActiveNode_def pushPair_def at_js_def
  handleFocusChange_def invalidateTreeCache_def spokenPhraseLogWithoutLiveRegions_def
  startsWith_def start_def observeDOM_def addFocusListener_def Let_def

lemmas demo_defs =
  demoEnv_def demoState_def demoTree_def demoPhrase_def demoOptions_def mkNode_def
  pageNode_def openButton_def dialogNode_def closeButton_def saveButton_def endOfDialog_def
  endOfPage_def

lemma start_demo:
  "start (demoEnv demoTree modal) demoOptions initial =
     (Inr (), demoState pageNode [[]] [''document''])"
  by (simp add: engine_defs demo_defs initial_def)

lemma previous_demo_first:
  "previous (demoEnv demoTree ''true'') (demoState pageNode [[]] [''document'']) =
     (Inr (), demoState endOfPage [[], []] [''document'', ''end of document''])"
  by (simp add: engine_defs demo_defs)

lemma index_demo_first:
  "getCurrentIndex (demoState pageNode [[]] [''document''])
     (fst (getModalAccessibilityTree (demoEnv demoTree ''true'') (demoState pageNode [[]] [''document''])))
   = 0"
  by (simp add: engine_defs demo_defs)

text \<open>
  The claim that \<^verbatim>\<open>previous()\<close> at index 0 does not move to the last entry fails on the
  example page right after \<^verbatim>\<open>start()\<close>: the cursor is on the first of seven entries and
  \<^verbatim>\<open>previous()\<close> puts it on the seventh.
\<close>

theorem previous_wraps_counterexample:
  "getCurrentIndex (snd (start (demoEnv demoTree ''true'') demoOptions initial))
     (fst (getModalAccessibilityTree (demoEnv demoTree ''true'')
            (snd (start (demoEnv demoTree ''true'') demoOptions initial)))) = 0 \<and>
   last (fst (getModalAccessibilityTree (demoEnv demoTree ''true'')
            (snd (start (demoEnv demoTree ''true'') demoOptions initial)))) = endOfPage \<and>
   activeNode (snd (start (demoEnv demoTree ''true'') demoOptions initial)) = Some pageNode \<and>
   activeNode (snd (previous (demoEnv demoTree ''true'')
                      (snd (start (demoEnv demoTree ''true'') demoOptions initial)))) = Some endOfPage \<and>
   endOfPage \<noteq> pageNode"
proof -
  have t: "fst (getModalAccessibilityTree (demoEnv demoTree ''true'') (demoState pageNode [[]] [''document'']))
             = demoTree"
    by (simp add: engine_defs demo_defs)
  have l: "last demoTree = endOfPage"
    by (simp add: demoTree_def)
  have a: "activeNode (demoState n ts ps) = Some n" for n ts ps
    by (simp add: demoState_def)
  have d: "endOfPage \<noteq> pageNode"
    by (simp add: endOfPage_def pageNode_def mkNode_def)
  show ?thesis
    using index_demo_first
    by (simp add: start_demo previous_demo_first t l a d)
qed

text \<open>The theorem on the same engine.\<close>

theorem previous_wraps_to_last_witness:
  "fst (previous (demoEnv demoTree ''true'') (demoState pageNode [[]] [''document''])) = Inr () \<and>
   activeNode (snd (previous (demoEnv demoTree ''true'') (demoState pageNode [[]] [''document'']))) =
     Some endOfPage"
proof -
  let ?E = "demoEnv demoTree ''true''"
  let ?S = "demoState pageNode [[]] [''document'']"
  have c: "container ?S \<noteq> None"
    by (simp add: demoState_def)
  have f: "fst (getAccessibilityTree ?E ?S) = demoTree"
    by (simp add: getAccessibilityTree_def demoState_def)
  have d: "dialogsListed (fst (getAccessibilityTree ?E ?S))"
    unfolding f by (simp add: dialogsListed_def demo_defs)
  have t: "fst (getModalAccessibilityTree ?E ?S) = demoTree"
    by (simp add: engine_defs demo_defs)
  have n: "fst (getModalAccessibilityTree ?E ?S) \<noteq> []"
    unfolding t by (simp add: demoTree_def)
  have l: "last demoTree = endOfPage"
    by (simp add: demoTree_def)
  show ?thesis
    using previous_wraps_to_last [OF c d n index_demo_first]
    by (simp add: t l)
qed

section \<open>Navigation inside a modal dialog\<close>

lemma perform_unfold:
  assumes "container s = Some c" and "fst (getModalAccessibilityTree env s) \<noteq> []"
  shows "perform env command s =
     (case command c (getCurrentIndex s (fst (getModalAccessibilityTree env s)))
             (fst (getModalAccessibilityTree env s)) of
        None \<Rightarrow> (Inr (), snd (getAccessibilityTree env s))
      | Some k \<Rightarrow> updateStateAt env (fst (getModalAccessibilityTree env s)) k False
                    (snd (getAccessibilityTree env s)))"
  using assms
  by (simp add: perform_def split_beta Let_def getModalAccessibilityTree_snd
      getCurrentIndex_def getAccessibilityTree_fields)

lemma updateStateAt_same_dialog:
  assumes "activeNode s = Some a" and "\<And>n. n \<in> set T \<Longrightarrow> parentDialog n = parentDialog a"
  shows "map_option parentDialog (activeNode (snd (updateStateAt env T i ig s))) = Some (parentDialog a)"
proof (cases "at_js T i")
  case None
  then show ?thesis
    by (simp add: updateStateAt_def assms(1))
next
  case (Some n)
  then have "parentDialog n = parentDialog a"
    using assms(2) at_js_in_set by metis
  then have "updateState env n ig s = (Inr (), announceTarget env n ig s)"
    by (intro updateState_same_dialog) (simp add: assms(1))
  then show ?thesis
    using Some \<open>parentDialog n = parentDialog a\<close>
    by (simp add: updateStateAt_def announceTarget_fields)
qed

lemma modal_scope:
  assumes "activeNode s = Some a" and "isModal env a"
  shows "fst (getModalAccessibilityTree env s) =
           filter (\<lambda>n. parentDialog a = parentDialog n) (fst (getAccessibilityTree env s))"
  using assms by (simp add: getModalAccessibilityTree_fst)

lemma modal_step:
  assumes "activeNode s = Some a" and "isModal env a"
  shows "map_option parentDialog
           (activeNode (snd (updateStateAt env (fst (getModalAccessibilityTree env s)) i False
                               (snd (getAccessibilityTree env s))))) = Some (parentDialog a)"
proof (rule updateStateAt_same_dialog)
  show "activeNode (snd (getAccessibilityTree env s)) = Some a"
    by (simp add: getAccessibilityTree_fields assms(1))
next
  fix n assume "n \<in> set (fst (getModalAccessibilityTree env s))"
  then show "parentDialog n = parentDialog a"
    by (simp add: modal_scope [OF assms])
qed

text \<open>
  C2. When the dialog of the active node carries \<^verbatim>\<open>aria-modal="true"\<close>, the node that is
  active after \<^verbatim>\<open>next()\<close>, \<^verbatim>\<open>previous()\<close> or \<^verbatim>\<open>perform()\<close> with any command has the same
  \<^verbatim>\<open>parentDialog\<close> as the node that was active before, whether the call moves the
  cursor, does nothing or throws.
\<close>

theorem modal_scope_keeps_dialog:
  assumes "activeNode s = Some a" and "isModal env a"
  shows "map_option parentDialog (activeNode (snd (next_op env s))) = Some (parentDialog a) \<and>
         map_option parentDialog (activeNode (snd (previous env s))) = Some (parentDialog a) \<and>
         map_option parentDialog (activeNode (snd (perform env command s))) = Some (parentDialog a)"
proof (cases "container s")
  case None
  then show ?thesis
    by (simp add: next_op_def previous_def perform_def checkContainer_def assms(1))
next
  case (Some c)
  show ?thesis
  proof (cases "fst (getModalAccessibilityTree env s) = []")
    case True
    then have "getModalAccessibilityTree env s = ([], snd (getAccessibilityTree env s))"
      by (metis getModalAccessibilityTree_snd prod.collapse)
    then show ?thesis
      by (simp add: next_op_def previous_def perform_def checkContainer_def Some
          getAccessibilityTree_fields assms(1))
  next
    case False
    have c: "container s \<noteq> None"
      by (simp add: Some)
    have "map_option parentDialog (activeNode (snd (perform env command s))) = Some (parentDialog a)"
      by (cases "command c (getCurrentIndex s (fst (getModalAccessibilityTree env s)))
                   (fst (getModalAccessibilityTree env s))")
        (simp_all add: perform_unfold [OF Some False] modal_step [OF assms]
          getAccessibilityTree_fields assms(1))
    then show ?thesis
      by (simp only: next_unfold [OF c False] previous_unfold [OF c False] modal_step [OF assms])
  qed
qed

lemma next_demo_save:
  "next_op (demoEnv demoTree ''true'') (demoState saveButton [''Save''] [''button, Save'']) =
     (Inr (), demoState endOfDialog [''Save'', ''Settings'']
                [''button, Save'', ''end of dialog, Settings''])"
  by (simp add: engine_defs demo_defs)

text \<open>
  On the last button of the modal dialog of the example page: \<^verbatim>\<open>next()\<close> moves to the
  closing entry of the dialog, \<^verbatim>\<open>previous()\<close> to the first button, and a command that
  answers an index out of range leaves the cursor where it is.
\<close>

theorem modal_scope_keeps_dialog_witness:
  "map_option parentDialog
     (activeNode (snd (next_op (demoEnv demoTree ''true'')
                         (demoState saveButton [''Save''] [''button, Save''])))) = Some (Some 2) \<and>
   map_option parentDialog
     (activeNode (snd (previous (demoEnv demoTree ''true'')
                         (demoState saveButton [''Save''] [''button, Save''])))) = Some (Some 2) \<and>
   map_option parentDialog
     (activeNode (snd (perform (demoEnv demoTree ''true'') (\<lambda>c i tree. Some 9)
                         (demoState saveButton [''Save''] [''button, Save''])))) = Some (Some 2) \<and>
   activeNode (snd (next_op (demoEnv demoTree ''true'')
                         (demoState saveButton [''Save''] [''button, Save'']))) = Some endOfDialog"
proof -
  have a: "activeNode (demoState saveButton [''Save''] [''button, Save'']) = Some saveButton"
    by (simp add: demoState_def)
  have m: "isModal (demoEnv demoTree ''true'') saveButton"
    by (simp add: isModal_def demoEnv_def saveButton_def mkNode_def)
  have p: "parentDialog saveButton = Some 2"
    by (simp add: saveButton_def mkNode_def)
  have moved: "activeNode (snd (next_op (demoEnv demoTree ''true'')
                         (demoState saveButton [''Save''] [''button, Save'']))) = Some endOfDialog"
    by (simp add: next_demo_save, simp add: demoState_def)
  show ?thesis
    using modal_scope_keeps_dialog [OF a m, of "\<lambda>c i tree. Some 9"] moved
    by (simp add: p)
qed

section \<open>The announcement of a dialog\<close>

lemma noChange_logs:
  assumes "spokenPhraseLog s' = spokenPhraseLog s" and "itemTextLog s' = itemTextLog s"
  shows "noChange env n s' = noChange env n s"
  using assms by (simp add: noChange_def spokenPhraseLogWithoutLiveRegions_def)

lemma announceTarget_logs:
  "itemTextLog (announceTarget env n ig s) =
     itemTextLog s @ (if ig \<and> noChange env n s then [] else [getItemText env n])"
  "spokenPhraseLog (announceTarget env n ig s) =
     spokenPhraseLog s @ (if ig \<and> noChange env n s then [] else [getSpokenPhrase env n])"
  by (auto simp: announceTarget_def setActiveNode_def pushPair_def noChange_def
      spokenPhraseLogWithoutLiveRegions_def Let_def)

text \<open>
  C4, as the code has it. A state update that makes active a node whose \<^verbatim>\<open>parentDialog\<close>
  is not null, differs from that of the node active before and has an entry in the
  flattened tree first appends the pair of the dialog entry and then the pair of the
  target: two entries in each log. The one exception is an update that ignores no change
  (after a focus notification, a key press or typing): it leaves the pair of the target
  out when, with the pair of the dialog in the logs, the phrase and the text of the
  target are the last entries, as they are when the target is the dialog entry itself.
  A state update that makes active a node with no \<^verbatim>\<open>parentDialog\<close> appends no pair for a
  dialog, also when it leaves one: only the pair of the target, under the same rule of
  no change.
\<close>

theorem dialog_pair_only_on_entering:
  "(find (\<lambda>m. Some (node m) = parentDialog n) (fst (getAccessibilityTree env s)) = Some dn \<and>
    map_option parentDialog (activeNode s) \<noteq> Some (parentDialog n) \<longrightarrow>
      fst (updateState env n ig s) = Inr () \<and>
      activeNode (snd (updateState env n ig s)) = Some n \<and>
      container (snd (updateState env n ig s)) = container s \<and>
      itemTextLog (snd (updateState env n ig s)) =
        itemTextLog s @ [getItemText env dn] @
          (if ig \<and> noChange env n (pushPair env dn s) then [] else [getItemText env n]) \<and>
      spokenPhraseLog (snd (updateState env n ig s)) =
        spokenPhraseLog s @ [getSpokenPhrase env dn] @
          (if ig \<and> noChange env n (pushPair env dn s) then [] else [getSpokenPhrase env n])) \<and>
   (parentDialog n = None \<longrightarrow>
      fst (updateState env n ig s) = Inr () \<and>
      activeNode (snd (updateState env n ig s)) = Some n \<and>
      container (snd (updateState env n ig s)) = container s \<and>
      itemTextLog (snd (updateState env n ig s)) =
        itemTextLog s @ (if ig \<and> noChange env n s then [] else [getItemText env n]) \<and>
      spokenPhraseLog (snd (updateState env n ig s)) =
        spokenPhraseLog s @ (if ig \<and> noChange env n s then [] else [getSpokenPhrase env n]))"
proof (intro conjI impI)
  assume h: "find (\<lambda>m. Some (node m) = parentDialog n) (fst (getAccessibilityTree env s)) = Some dn \<and>
    map_option parentDialog (activeNode s) \<noteq> Some (parentDialog n)"
  let ?s1 = "snd (getAccessibilityTree env s)"
  have u: "updateState env n ig s = (Inr (), announceTarget env n ig (pushPair env dn ?s1))"
    using h by (simp add: updateState_new_dialog)
  have same: "noChange env n (pushPair env dn ?s1) = noChange env n (pushPair env dn s)"
    by (rule noChange_logs) (simp_all add: pushPair_def getAccessibilityTree_fields)
  show "fst (updateState env n ig s) = Inr ()"
    by (simp add: u)
  show "activeNode (snd (updateState env n ig s)) = Some n"
    by (simp add: u announceTarget_fields)
  show "container (snd (updateState env n ig s)) = container s"
    by (simp add: u announceTarget_fields pushPair_def getAccessibilityTree_fields)
  show "itemTextLog (snd (updateState env n ig s)) =
        itemTextLog s @ [getItemText env dn] @
          (if ig \<and> noChange env n (pushPair env dn s) then [] else [getItemText env n])"
    by (simp add: u announceTarget_logs same) (simp add: pushPair_def getAccessibilityTree_fields)
  show "spokenPhraseLog (snd (updateState env n ig s)) =
        spokenPhraseLog s @ [getSpokenPhrase env dn] @
          (if ig \<and> noChange env n (pushPair env dn s) then [] else [getSpokenPhrase env n])"
    by (simp add: u announceTarget_logs same) (simp add: pushPair_def getAccessibilityTree_fields)
next
  assume "parentDialog n = None"
  then have u: "updateState env n ig s = (Inr (), announceTarget env n ig s)"
    by (simp add: updateState_same_dialog)
  show "fst (updateState env n ig s) = Inr ()"
    by (simp add: u)
  show "activeNode (snd (updateState env n ig s)) = Some n"
    by (simp add: u announceTarget_fields)
  show "container (snd (updateState env n ig s)) = container s"
    by (simp add: u announceTarget_fields)
  show "itemTextLog (snd (updateState env n ig s)) =
        itemTextLog s @ (if ig \<and> noChange env n s then [] else [getItemText env n])"
    by (simp add: u announceTarget_logs)
  show "spokenPhraseLog (snd (updateState env n ig s)) =
        spokenPhraseLog s @ (if ig \<and> noChange env n s then [] else [getSpokenPhrase env n])"
    by (simp add: u announceTarget_logs)
qed

text \<open>
  Leaving the dialog of the example page, here open and not \<^verbatim>\<open>aria-modal\<close>, with
  \<^verbatim>\<open>next()\<close>: the cursor goes from the closing entry of the dialog, whose
  \<^verbatim>\<open>parentDialog\<close> is the dialog, to the closing entry of the page, which has none. The
  \<^verbatim>\<open>parentDialog\<close> differs and each log grows by one entry, not two.
\<close>

theorem leaving_dialog_counterexample:
  "parentDialog endOfDialog = Some 2 \<and> parentDialog endOfPage = None \<and>
   next_op (demoEnv demoTree ''false'')
       (demoState endOfDialog [''Settings''] [''end of dialog, Settings'']) =
     (Inr (), demoState endOfPage [''Settings'', []]
                [''end of dialog, Settings'', ''end of document''])"
  by (simp add: engine_defs demo_defs)

text \<open>
  Three state updates on the example page with its modal dialog. \<^verbatim>\<open>next()\<close> from the
  button before the dialog enters it: two pairs, both of the dialog entry, which is the
  target and its own \<^verbatim>\<open>parentDialog\<close>. A focus notification for the dialog element from
  the same button: the pair of the dialog, and the target's pair left out as unchanged. A
  focus notification for the button outside, from inside the dialog: one pair.
\<close>

theorem dialog_pair_only_on_entering_witness:
  "spokenPhraseLog (snd (updateState (demoEnv demoTree ''true'') dialogNode False
       (demoState openButton [''Open''] [''button, Open'']))) =
     [''button, Open'', ''dialog, Settings'', ''dialog, Settings''] \<and>
   next_op (demoEnv demoTree ''true'') (demoState openButton [''Open''] [''button, Open'']) =
     updateState (demoEnv demoTree ''true'') dialogNode False
       (demoState openButton [''Open''] [''button, Open'']) \<and>
   spokenPhraseLog (snd (updateState (demoEnv demoTree ''true'') dialogNode True
       (demoState openButton [''Open''] [''button, Open'']))) =
     [''button, Open'', ''dialog, Settings''] \<and>
   handleFocusChange (demoEnv demoTree ''true'') 2 (demoState openButton [''Open''] [''button, Open'']) =
     updateState (demoEnv demoTree ''true'') dialogNode True
       (demoState openButton [''Open''] [''button, Open'']) \<and>
   spokenPhraseLog (snd (updateState (demoEnv demoTree ''true'') openButton True
       (demoState closeButton [''Close''] [''button, Close'']))) =
     [''button, Close'', ''button, Open''] \<and>
   handleFocusChange (demoEnv demoTree ''true'') 1 (demoState closeButton [''Close''] [''button, Close'']) =
     updateState (demoEnv demoTree ''true'') openButton True
       (demoState closeButton [''Close''] [''button, Close''])"
proof -
  let ?E = "demoEnv demoTree ''true''"
  let ?O = "demoState openButton [''Open''] [''button, Open'']"
  let ?C = "demoState closeButton [''Close''] [''button, Close'']"
  have f: "find (\<lambda>m. Some (node m) = parentDialog dialogNode) (fst (getAccessibilityTree ?E ?O))
             = Some dialogNode"
    by (simp add: getAccessibilityTree_def demo_defs)
  have d: "map_option parentDialog (activeNode ?O) \<noteq> Some (parentDialog dialogNode)"
    by (simp add: demo_defs)
  have l: "parentDialog openButton = None"
    by (simp add: demo_defs)
  have same: "noChange ?E dialogNode (pushPair ?E dialogNode ?O)"
    by (simp add: noChange_def pushPair_def spokenPhraseLogWithoutLiveRegions_def startsWith_def
        at_js_def demo_defs)
  have other: "\<not> noChange ?E openButton ?C"
    by (simp add: noChange_def spokenPhraseLogWithoutLiveRegions_def startsWith_def
        at_js_def demo_defs)
  have p: "getSpokenPhrase ?E dialogNode = ''dialog, Settings''"
    "getSpokenPhrase ?E openButton = ''button, Open''"
    by (simp_all add: demo_defs)
  have logs: "spokenPhraseLog ?O = [''button, Open'']" "spokenPhraseLog ?C = [''button, Close'']"
    by (simp_all add: demoState_def)
  have n: "next_op ?E ?O = updateState ?E dialogNode False ?O"
    by (simp add: next_op_def checkContainer_def getModalAccessibilityTree_def getAccessibilityTree_def
        isModal_def getCurrentIndex_def sameEntry_def updateStateAt_def at_js_def Let_def demo_defs)
  have h2: "handleFocusChange ?E 2 ?O = updateState ?E dialogNode True ?O"
    by (simp add: handleFocusChange_def getAccessibilityTree_def invalidateTreeCache_def Let_def
        demo_defs)
  have h1: "handleFocusChange ?E 1 ?C = updateState ?E openButton True ?C"
    by (simp add: handleFocusChange_def getAccessibilityTree_def invalidateTreeCache_def Let_def
        demo_defs)
  have entering: "spokenPhraseLog (snd (updateState ?E dialogNode False ?O)) =
      [''button, Open'', ''dialog, Settings'', ''dialog, Settings'']"
    using dialog_pair_only_on_entering [of dialogNode ?E ?O dialogNode False] f d
    by (simp add: p logs)
  have refocus: "spokenPhraseLog (snd (updateState ?E dialogNode True ?O)) =
      [''button, Open'', ''dialog, Settings'']"
    using dialog_pair_only_on_entering [of dialogNode ?E ?O dialogNode True] f d same
    by (simp add: p logs)
  have leaving: "spokenPhraseLog (snd (updateState ?E openButton True ?C)) =
      [''button, Close'', ''button, Open'']"
    using dialog_pair_only_on_entering [of openButton ?E ?C dialogNode True] l other
    by (simp add: p logs)
  show ?thesis
    by (intro conjI entering n refocus h2 leaving h1)
qed

section \<open>Focus notifications\<close>

lemma handleFocusChange_found:
  assumes "find (\<lambda>n. node n = target) (fst (getAccessibilityTree env (invalidateTreeCache s))) = Some n"
  shows "handleFocusChange env target s =
           updateState env n True (snd (getAccessibilityTree env (invalidateTreeCache s)))"
proof -
  have "fst (getAccessibilityTree env (invalidateTreeCache s)) \<noteq> []"
    using assms by auto
  then show ?thesis
    using assms by (simp add: handleFocusChange_def split_beta)
qed

lemma announceTarget_unchanged:
  assumes "at_js (spokenPhraseLogWithoutLiveRegions env s) (- 1) = Some (getSpokenPhrase env n)"
    and "at_js (itemTextLog s) (- 1) = Some (getItemText env n)"
  shows "announceTarget env n True s = s\<lparr>activeNode := Some n\<rparr>"
  using assms
  by (simp add: announceTarget_def setActiveNode_def spokenPhraseLogWithoutLiveRegions_def)

text \<open>
  C6, as the code has it. On a focus notification, if the focused document node is found
  in the re-synthesized tree, its \<^verbatim>\<open>parentDialog\<close> is null or that of the active node, its
  spoken phrase is the last entry of the spoken-phrase log once the live-region
  announcements are left out, and its item text is the last entry of the item-text log,
  then the engine makes it the active node and appends nothing to either log.
\<close>

theorem refocus_unchanged_appends_nothing:
  assumes "find (\<lambda>n. node n = target) (fst (getAccessibilityTree env (invalidateTreeCache s))) = Some n"
    and "parentDialog n = None \<or> map_option parentDialog (activeNode s) = Some (parentDialog n)"
    and "spokenPhraseLogWithoutLiveRegions env s \<noteq> []"
    and "last (spokenPhraseLogWithoutLiveRegions env s) = getSpokenPhrase env n"
    and "itemTextLog s \<noteq> []"
    and "last (itemTextLog s) = getItemText env n"
  shows "fst (handleFocusChange env target s) = Inr () \<and>
         activeNode (snd (handleFocusChange env target s)) = Some n \<and>
         spokenPhraseLog (snd (handleFocusChange env target s)) = spokenPhraseLog s \<and>
         itemTextLog (snd (handleFocusChange env target s)) = itemTextLog s"
proof -
  let ?s1 = "snd (getAccessibilityTree env (invalidateTreeCache s))"
  have logs: "spokenPhraseLog ?s1 = spokenPhraseLog s" "itemTextLog ?s1 = itemTextLog s"
    "activeNode ?s1 = activeNode s"
    by (simp_all add: getAccessibilityTree_fields invalidateTreeCache_def)
  have w: "spokenPhraseLogWithoutLiveRegions env ?s1 = spokenPhraseLogWithoutLiveRegions env s"
    by (simp add: spokenPhraseLogWithoutLiveRegions_def logs)
  have u: "updateState env n True ?s1 = (Inr (), announceTarget env n True ?s1)"
    using assms(2) by (intro updateState_same_dialog) (simp add: logs)
  have a: "announceTarget env n True ?s1 = ?s1\<lparr>activeNode := Some n\<rparr>"
    using assms(3-6) by (intro announceTarget_unchanged) (simp_all add: w logs at_js_last)
  show ?thesis
    by (simp add: handleFocusChange_found [OF assms(1)] u a logs)
qed

text \<open>
  The claim without the condition on the dialog fails on the second example page. The
  cursor is on the button outside the dialog, whose phrase and text are the last entries
  of the logs; focus moves to the button of the same name inside the dialog. Phrase and
  text are unchanged, and the engine appends two pairs: the dialog's and the button's.
\<close>

theorem refocus_into_dialog_counterexample:
  "node closeButton = 3 \<and>
   closeButton \<in> set (synthesize (demoEnv twinTree ''true'') 0) \<and>
   getSpokenPhrase (demoEnv twinTree ''true'') closeButton =
     last (spokenPhraseLog (demoState outerClose [[], ''Close''] [''document'', ''button, Close''])) \<and>
   getItemText (demoEnv twinTree ''true'') closeButton =
     last (itemTextLog (demoState outerClose [[], ''Close''] [''document'', ''button, Close''])) \<and>
   handleFocusChange (demoEnv twinTree ''true'') 3
       (demoState outerClose [[], ''Close''] [''document'', ''button, Close'']) =
     (Inr (), (demoState closeButton [[], ''Close'', ''Settings'', ''Close'']
                 [''document'', ''button, Close'', ''dialog, Settings'', ''button, Close''])
              \<lparr>treeCache := Some twinTree\<rparr>)"
  by (simp add: engine_defs twinTree_def outerClose_def demo_defs)

text \<open>
  Focus on the button the log last spoke of, after a live-region announcement: the
  announcement is left out of the comparison and nothing is appended.
\<close>

theorem refocus_unchanged_appends_nothing_witness:
  "fst (handleFocusChange (demoEnv demoTree ''true'') 1
         (demoState pageNode [[], ''Open''] [''document'', ''button, Open'', ''polite: saved''])) = Inr () \<and>
   activeNode (snd (handleFocusChange (demoEnv demoTree ''true'') 1
         (demoState pageNode [[], ''Open''] [''document'', ''button, Open'', ''polite: saved''])))
     = Some openButton \<and>
   spokenPhraseLog (snd (handleFocusChange (demoEnv demoTree ''true'') 1
         (demoState pageNode [[], ''Open''] [''document'', ''button, Open'', ''polite: saved''])))
     = [''document'', ''button, Open'', ''polite: saved''] \<and>
   itemTextLog (snd (handleFocusChange (demoEnv demoTree ''true'') 1
         (demoState pageNode [[], ''Open''] [''document'', ''button, Open'', ''polite: saved''])))
     = [[], ''Open'']"
proof -
  let ?E = "demoEnv demoTree ''true''"
  let ?S = "demoState pageNode [[], ''Open''] [''document'', ''button, Open'', ''polite: saved'']"
  have t: "getAccessibilityTree ?E (invalidateTreeCache ?S) = (demoTree, ?S)"
    by (simp add: getAccessibilityTree_def invalidateTreeCache_def demoEnv_def demoState_def)
  have f: "find (\<lambda>n. node n = 1) (fst (getAccessibilityTree ?E (invalidateTreeCache ?S))) = Some openButton"
    by (simp add: t) (simp add: demo_defs)
  have d: "parentDialog openButton = None \<or>
           map_option parentDialog (activeNode ?S) = Some (parentDialog openButton)"
    by (simp add: demo_defs)
  have w: "spokenPhraseLogWithoutLiveRegions ?E ?S = [''document'', ''button, Open'']"
    by (simp add: spokenPhraseLogWithoutLiveRegions_def startsWith_def demoEnv_def demoState_def)
  have p: "getSpokenPhrase ?E openButton = ''button, Open''" "getItemText ?E openButton = ''Open''"
    by (simp_all add: demo_defs)
  have i: "itemTextLog ?S = [[], ''Open'']"
    and l: "spokenPhraseLog ?S = [''document'', ''button, Open'', ''polite: saved'']"
    by (simp_all add: demoState_def)
  have h3: "spokenPhraseLogWithoutLiveRegions ?E ?S \<noteq> []"
    and h4: "last (spokenPhraseLogWithoutLiveRegions ?E ?S) = getSpokenPhrase ?E openButton"
    and h5: "itemTextLog ?S \<noteq> []"
    and h6: "last (itemTextLog ?S) = getItemText ?E openButton"
    by (simp_all add: w p i)
  show ?thesis
    using refocus_unchanged_appends_nothing [OF f d h3 h4 h5 h6]
    by (simp add: i l)
qed

section \<open>Nodes hidden from the accessibility tree\<close>

lemma isHidden_element:
  assumes "isElement h n" and "nodeType n \<noteq> TEXT_NODE"
  shows "fst (isHiddenFromAccessibilityTree h w (Some n)) = Returns (fst (tryBody h w n))"
  using assms by (simp add: isHiddenFromAccessibilityTree_def textTest_def split_beta)

text \<open>
  C8, as the code has it. An element with \<^verbatim>\<open>aria-hidden="true"\<close> and no tabbable
  descendant is hidden from the accessibility tree. With a tabbable descendant the marker
  does not hide it: the element is hidden exactly when its \<^verbatim>\<open>hidden\<close> property is true,
  its computed style has \<^verbatim>\<open>visibility: hidden\<close> or \<^verbatim>\<open>display: none\<close>, or reading the
  computed style throws, which the \<^verbatim>\<open>catch\<close> of the function answers with hidden.
\<close>

theorem aria_hidden_needs_no_tabbable:
  assumes "isElement h n" and "nodeType n \<noteq> TEXT_NODE"
    and "nodeGetAttribute n ''aria-hidden'' = Some ''true''"
  shows "(tabbable h n = Returns [] \<longrightarrow>
            fst (isHiddenFromAccessibilityTree h w (Some n)) = Returns True) \<and>
         (tabbable h n = Returns ts \<and> ts \<noteq> [] \<longrightarrow>
            fst (isHiddenFromAccessibilityTree h w (Some n)) =
              Returns (hidden n \<or> getComputedStyle h n = Throws \<or>
                       (\<exists>computed. getComputedStyle h n = Returns (Some computed) \<and>
                          (visibility computed = ''hidden'' \<or> display computed = ''none''))))"
proof (intro conjI impI)
  assume "tabbable h n = Returns []"
  then show "fst (isHiddenFromAccessibilityTree h w (Some n)) = Returns True"
    by (simp add: isHidden_element [OF assms(1,2)] tryBody_def assms(3))
next
  assume t: "tabbable h n = Returns ts \<and> ts \<noteq> []"
  have s: "styleHides h n = (getComputedStyle h n = Throws \<or>
                       (\<exists>computed. getComputedStyle h n = Returns (Some computed) \<and>
                          (visibility computed = ''hidden'' \<or> display computed = ''none'')))"
    by (simp add: styleHides_def split: outcome.splits option.splits)
  from t show "fst (isHiddenFromAccessibilityTree h w (Some n)) =
              Returns (hidden n \<or> getComputedStyle h n = Throws \<or>
                       (\<exists>computed. getComputedStyle h n = Returns (Some computed) \<and>
                          (visibility computed = ''hidden'' \<or> display computed = ''none'')))"
    by (simp add: isHidden_element [OF assms(1,2)] tryBody_def assms(3) s)
qed

text \<open>Unfolding the visibility check, for evaluation.\<close>

lemmas hidden_defs =
  isHiddenFromAccessibilityTree_def textTest_def tryBody_def styleHides_def TEXT_NODE_def
  nodeGetAttribute_def demoHelpers_def demoElement_def

text \<open>
  An element the DOM implementation does not support: \<^verbatim>\<open>aria-hidden="true"\<close>, one tabbable
  descendant, no \<^verbatim>\<open>hidden\<close> property, and a computed style that cannot be read. None of
  the three reasons of the claim holds and the element is hidden all the same.
\<close>

theorem aria_hidden_unsupported_counterexample:
  "isElement (demoHelpers ''math'' (Returns [5]) Throws) (demoElement [(''aria-hidden'', ''true'')]) \<and>
   nodeGetAttribute (demoElement [(''aria-hidden'', ''true'')]) ''aria-hidden'' = Some ''true'' \<and>
   tabbable (demoHelpers ''math'' (Returns [5]) Throws) (demoElement [(''aria-hidden'', ''true'')])
     = Returns [5] \<and>
   hidden (demoElement [(''aria-hidden'', ''true'')]) = False \<and>
   getComputedStyle (demoHelpers ''math'' (Returns [5]) Throws) (demoElement [(''aria-hidden'', ''true'')])
     = Throws \<and>
   fst (isHiddenFromAccessibilityTree (demoHelpers ''math'' (Returns [5]) Throws) False
          (Some (demoElement [(''aria-hidden'', ''true'')]))) = Returns True"
  by (simp add: hidden_defs)

text \<open>
  No tabbable descendant: hidden. A tabbable descendant and a visible style: kept. A
  tabbable descendant and \<^verbatim>\<open>display: none\<close>: hidden.
\<close>

theorem aria_hidden_needs_no_tabbable_witness:
  "fst (isHiddenFromAccessibilityTree (demoHelpers ''div'' (Returns []) (Returns None)) False
          (Some (demoElement [(''aria-hidden'', ''true'')]))) = Returns True \<and>
   fst (isHiddenFromAccessibilityTree
          (demoHelpers ''div'' (Returns [5]) (Returns (Some \<lparr>visibility = ''visible'', display = ''block''\<rparr>)))
          False (Some (demoElement [(''aria-hidden'', ''true'')]))) = Returns False \<and>
   fst (isHiddenFromAccessibilityTree
          (demoHelpers ''div'' (Returns [5]) (Returns (Some \<lparr>visibility = ''visible'', display = ''none''\<rparr>)))
          False (Some (demoElement [(''aria-hidden'', ''true'')]))) = Returns True"
proof -
  let ?n = "demoElement [(''aria-hidden'', ''true'')]"
  have e: "isElement (demoHelpers nm ts st) ?n" for nm ts st
    by (simp add: demoHelpers_def demoElement_def)
  have t: "nodeType ?n \<noteq> TEXT_NODE"
    by (simp add: demoElement_def TEXT_NODE_def)
  have a: "nodeGetAttribute ?n ''aria-hidden'' = Some ''true''"
    by (simp add: nodeGetAttribute_def demoElement_def)
  have h: "hidden ?n = False"
    by (simp add: demoElement_def)
  have g: "tabbable (demoHelpers nm ts st) ?n = ts" "getComputedStyle (demoHelpers nm ts st) ?n = st"
    for nm ts st
    by (simp_all add: demoHelpers_def)
  show ?thesis
    using aria_hidden_needs_no_tabbable [OF e [of "''div''" "Returns []" "Returns None"] t a,
        where ts = "[5]" and w = False]
      aria_hidden_needs_no_tabbable [OF e [of "''div''" "Returns [5]"
        "Returns (Some \<lparr>visibility = ''visible'', display = ''block''\<rparr>)"] t a,
        where ts = "[5]" and w = False]
      aria_hidden_needs_no_tabbable [OF e [of "''div''" "Returns [5]"
        "Returns (Some \<lparr>visibility = ''visible'', display = ''none''\<rparr>)"] t a,
        where ts = "[5]" and w = False]
    by (simp add: g h)
qed

section \<open>A full round of \<^verbatim>\<open>next()\<close>\<close>

lemma findIndex_nth:
  assumes "i < length xs" and "P (xs ! i)" and "\<And>j. j < i \<Longrightarrow> \<not> P (xs ! j)"
  shows "findIndex P xs = int i"
  using assms
proof (induction xs arbitrary: i)
  case Nil
  then show ?case by simp
next
  case (Cons x xs)
  show ?case
  proof (cases i)
    case 0
    with Cons.prems(2) show ?thesis by simp
  next
    case (Suc k)
    have nx: "\<not> P x"
      using Cons.prems(3) [of 0] Suc by simp
    have "findIndex P xs = int k"
    proof (rule Cons.IH)
      show "k < length xs" using Cons.prems(1) Suc by simp
      show "P (xs ! k)" using Cons.prems(2) Suc by simp
      fix j assume "j < k"
      then show "\<not> P (xs ! j)" using Cons.prems(3) [of "Suc j"] Suc by simp
    qed
    with nx Suc show ?thesis by (simp add: Let_def)
  qed
qed

lemma sameEntry_identity: "sameEntry (Some a) n = (identity n = identity a)"
  by (auto simp: sameEntry_def identity_def)

lemma getCurrentIndex_distinct:
  assumes "distinct (map identity T)" and "i < length T" and "activeNode s = Some (T ! i)"
  shows "getCurrentIndex s T = int i"
proof -
  have "findIndex (sameEntry (Some (T ! i))) T = int i"
  proof (rule findIndex_nth [OF assms(2)])
    show "sameEntry (Some (T ! i)) (T ! i)"
      by (simp add: sameEntry_identity)
  next
    fix j assume j: "j < i"
    have "(map identity T ! j = map identity T ! i) = (j = i)"
      using assms(1) j assms(2) by (intro nth_eq_iff_index_eq) simp_all
    with j have "map identity T ! j \<noteq> map identity T ! i"
      by simp
    then show "\<not> sameEntry (Some (T ! i)) (T ! j)"
      using j assms(2) by (simp add: sameEntry_identity)
  qed
  then show ?thesis
    by (simp add: getCurrentIndex_def assms(3))
qed

text \<open>The tree and the scope of a started engine on a document that does not change.\<close>

lemma full_tree:
  assumes "container s = Some c" and "treeCache s = None \<or> treeCache s = Some (synthesize env c)"
  shows "getAccessibilityTree env s = (synthesize env c, s\<lparr>treeCache := Some (synthesize env c)\<rparr>)"
proof -
  from assms(2) show ?thesis
  proof
    assume "treeCache s = None"
    then show ?thesis
      by (simp add: getAccessibilityTree_def assms(1) Let_def)
  next
    assume h: "treeCache s = Some (synthesize env c)"
    then have "s\<lparr>treeCache := Some (synthesize env c)\<rparr> = s"
      by (cases s) simp
    with h show ?thesis
      by (simp add: getAccessibilityTree_def)
  qed
qed

lemma scoped_tree:
  assumes "cursorAt env c T i s"
  shows "fst (getModalAccessibilityTree env s) = scopeOf env c (T ! i)"
proof -
  from assms have "fst (getAccessibilityTree env s) = synthesize env c"
    by (simp add: cursorAt_def full_tree)
  with assms show ?thesis
    by (simp add: getModalAccessibilityTree_fst cursorAt_def scopeOf_def)
qed

lemma isModal_parentDialog:
  "parentDialog n = parentDialog a \<Longrightarrow> isModal env n = isModal env a"
  by (simp add: isModal_def)

lemma scope_stable:
  assumes "isModal env a \<or> list_all (\<lambda>n. \<not> isModal env n) (synthesize env c)"
    and "n \<in> set (scopeOf env c a)"
  shows "scopeOf env c n = scopeOf env c a"
proof (cases "isModal env a")
  case True
  with assms(2) have "parentDialog n = parentDialog a"
    by (simp add: scopeOf_def)
  then show ?thesis
    using isModal_parentDialog [of n a env] by (simp add: scopeOf_def)
next
  case False
  with assms have "\<not> isModal env n"
    by (auto simp: scopeOf_def list_all_iff)
  with False show ?thesis
    by (simp add: scopeOf_def)
qed

lemma scope_subset: "set (scopeOf env c a) \<subseteq> set (synthesize env c)"
  by (auto simp: scopeOf_def)

lemma scope_distinct:
  "distinct (map identity (synthesize env c)) \<Longrightarrow> distinct (map identity (scopeOf env c a))"
  by (simp add: scopeOf_def distinct_map_filter)

text \<open>One call of \<^verbatim>\<open>next()\<close> moves the cursor one entry on, and from the last entry to the first.\<close>

lemma next_index:
  assumes "i < length T"
  shows "(if int i = - 1 \<or> int i = int (length T) - 1 then 0 else int i + 1) =
           int (Suc i mod length T)"
proof (cases "Suc i = length T")
  case True
  then show ?thesis by auto
next
  case False
  with assms have "Suc i < length T" by simp
  then have "Suc i mod length T = Suc i" by simp
  with False show ?thesis by auto
qed

lemma next_step:
  assumes at: "cursorAt env c T i s"
    and scope: "scopeOf env c (T ! i) = T"
    and dist: "distinct (map identity T)"
    and sub: "set T \<subseteq> set (synthesize env c)"
    and listed: "dialogsListed (synthesize env c)"
  shows "fst (next_op env s) = Inr () \<and> cursorAt env c T (Suc i mod length T) (snd (next_op env s))"
proof -
  let ?D = "synthesize env c"
  let ?s1 = "s\<lparr>treeCache := Some ?D\<rparr>"
  let ?j = "Suc i mod length T"
  from at have c: "container s = Some c" and i: "i < length T" and a: "activeNode s = Some (T ! i)"
    and coh: "treeCache s = None \<or> treeCache s = Some ?D"
    by (simp_all add: cursorAt_def)
  have full: "getAccessibilityTree env s = (?D, ?s1)"
    using c coh by (rule full_tree)
  have full1: "getAccessibilityTree env ?s1 = (?D, ?s1)"
    by (simp add: getAccessibilityTree_def)
  have T: "fst (getModalAccessibilityTree env s) = T"
    using scoped_tree [OF at] scope by simp
  have ne: "fst (getModalAccessibilityTree env s) \<noteq> []"
    unfolding T using i by (cases T) simp_all
  have idx: "getCurrentIndex s T = int i"
    using dist i a by (rule getCurrentIndex_distinct)
  have j: "?j < length T"
  proof -
    from i have "0 < length T" by (rule le_less_trans [OF le0])
    then show ?thesis by simp
  qed
  have c': "container s \<noteq> None"
    using c by simp
  have step: "next_op env s = updateStateAt env T (int ?j) False ?s1"
    using next_unfold [OF c' ne]
    by (simp only: T idx next_index [OF i] full snd_conv)
  have "T ! ?j \<in> set ?D"
    using j sub by (meson nth_mem subsetD)
  then have d: "parentDialog (T ! ?j) = None \<or>
      find (\<lambda>m. Some (node m) = parentDialog (T ! ?j)) (fst (getAccessibilityTree env ?s1)) \<noteq> None"
    using dialogsListed_find [OF listed] by (simp add: full1)
  have u: "next_op env s = updateState env (T ! ?j) False ?s1"
    by (simp add: step updateStateAt_def at_js_nat [OF j])
  show ?thesis
    using updateState_ok [OF d, of False] c j
    by (auto simp: u cursorAt_def full1)
qed

lemma next_iterated:
  assumes scope: "\<And>n. n \<in> set T \<Longrightarrow> scopeOf env c n = T"
    and dist: "distinct (map identity T)"
    and sub: "set T \<subseteq> set (synthesize env c)"
    and listed: "dialogsListed (synthesize env c)"
  shows "cursorAt env c T i s \<Longrightarrow>
         fst (nextTimes k env s) = Inr () \<and>
         cursorAt env c T ((i + k) mod length T) (snd (nextTimes k env s))"
proof (induction k arbitrary: i s)
  case 0
  then show ?case
    by (simp add: cursorAt_def)
next
  case (Suc k)
  from Suc.prems have i: "i < length T"
    by (simp add: cursorAt_def)
  have "scopeOf env c (T ! i) = T"
    using i by (intro scope) simp
  from next_step [OF Suc.prems this dist sub listed]
  have ok: "fst (next_op env s) = Inr ()"
    and at': "cursorAt env c T (Suc i mod length T) (snd (next_op env s))"
    by simp_all
  from ok have unfold: "nextTimes (Suc k) env s = nextTimes k env (snd (next_op env s))"
    by (cases "next_op env s") (auto split: sum.splits)
  have "(Suc i mod length T + k) mod length T = (i + Suc k) mod length T"
    by (simp add: mod_add_left_eq)
  with Suc.IH [OF at'] show ?case
    unfolding unfold by simp
qed

text \<open>
  C3, as the code has it. Take a started engine on a document that does not change, whose
  flattened tree has no two entries alike in the six fields \<^verbatim>\<open>#getCurrentIndex\<close> compares
  and has an entry for every dialog named as a \<^verbatim>\<open>parentDialog\<close>, with the active node an
  entry of the tree. If the dialog of the active node is \<^verbatim>\<open>aria-modal="true"\<close>, or no
  entry of the tree has such a dialog, then, for \<open>T\<close> the modal-scoped sequence and \<open>i\<close> the
  current index: the active node is entry \<open>i\<close> of \<open>T\<close>; one call of \<^verbatim>\<open>next()\<close> returns and
  moves the cursor to entry \<open>i + 1\<close>, and from the last index to index 0; \<open>k\<close> calls all
  return and leave the cursor on entry \<open>(i + k) mod N\<close>, for \<open>N\<close> the length of \<open>T\<close>; and
  \<open>N\<close> calls bring it back to the entry it started on.
\<close>

theorem next_cycle:
  assumes "container s = Some c"
    and "treeCache s = None \<or> treeCache s = Some (synthesize env c)"
    and "activeNode s = Some a" and "a \<in> set (synthesize env c)"
    and "distinct (map identity (synthesize env c))"
    and "dialogsListed (synthesize env c)"
    and "isModal env a \<or> list_all (\<lambda>n. \<not> isModal env n) (synthesize env c)"
    and "T = fst (getModalAccessibilityTree env s)"
    and "i = nat (getCurrentIndex s T)"
  shows "i < length T \<and> T ! i = a \<and>
         fst (next_op env s) = Inr () \<and>
         activeNode (snd (next_op env s)) = Some (T ! (if i = length T - 1 then 0 else i + 1)) \<and>
         (\<forall>k. fst (nextTimes k env s) = Inr () \<and>
              activeNode (snd (nextTimes k env s)) = Some (T ! ((i + k) mod length T))) \<and>
         activeNode (snd (nextTimes (length T) env s)) = Some a"
proof -
  let ?T = "scopeOf env c a"
  have "a \<in> set ?T"
    using assms(4) by (simp add: scopeOf_def)
  then obtain j where j: "j < length ?T" and aj: "?T ! j = a"
    by (auto simp: in_set_conv_nth)
  have at: "cursorAt env c ?T j s"
    using assms(1,2,3) j aj by (simp add: cursorAt_def)
  have T: "T = ?T"
    using scoped_tree [OF at] aj assms(8) by simp
  have stable: "scopeOf env c n = ?T" if "n \<in> set ?T" for n
    using assms(7) that by (rule scope_stable)
  have dist: "distinct (map identity ?T)"
    using assms(5) by (rule scope_distinct)
  have sub: "set ?T \<subseteq> set (synthesize env c)"
    by (rule scope_subset)
  have "getCurrentIndex s ?T = int j"
    using dist j by (rule getCurrentIndex_distinct) (simp add: aj assms(3))
  then have i: "i = j"
    by (simp add: assms(9) T)
  have one: "fst (next_op env s) = Inr () \<and>
             cursorAt env c ?T (Suc j mod length ?T) (snd (next_op env s))"
  proof (rule next_step [OF at _ dist sub assms(6)])
    show "scopeOf env c (?T ! j) = ?T"
      by (simp only: aj)
  qed
  have succ: "Suc j mod length ?T = (if j = length ?T - 1 then 0 else j + 1)"
  proof (cases "Suc j = length ?T")
    case True
    then have "j = length ?T - 1" by arith
    with True show ?thesis by simp
  next
    case False
    with j have "Suc j < length ?T" by simp
    then have m: "Suc j mod length ?T = Suc j" by simp
    from False j have "j \<noteq> length ?T - 1" by arith
    with m show ?thesis by simp
  qed
  have many: "fst (nextTimes k env s) = Inr () \<and>
        cursorAt env c ?T ((j + k) mod length ?T) (snd (nextTimes k env s))" for k
    using stable dist sub assms(6) at by (rule next_iterated)
  have all: "\<forall>k. fst (nextTimes k env s) = Inr () \<and>
        activeNode (snd (nextTimes k env s)) = Some (?T ! ((j + k) mod length ?T))"
    using many by (simp add: cursorAt_def)
  have round: "activeNode (snd (nextTimes (length ?T) env s)) = Some a"
    using many [of "length ?T"] j aj by (simp add: cursorAt_def)
  have step: "activeNode (snd (next_op env s)) = Some (?T ! (if j = length ?T - 1 then 0 else j + 1))"
    using one by (simp only: cursorAt_def succ)
  show ?thesis
    unfolding i T using j aj one step all round by blast
qed

text \<open>
  Without the condition on the scope the claim fails on the example page with its modal
  dialog. After \<^verbatim>\<open>start()\<close> the cursor is on the page, outside the dialog, and the scoped
  sequence is the whole tree, of length 7. The second \<^verbatim>\<open>next()\<close> enters the dialog, the
  scope shrinks to the four entries of the dialog, and after seven calls the cursor is on
  a button of the dialog.
\<close>

lemma nextTimes_modal_demo:
  "nextTimes 7 (demoEnv demoTree ''true'') (demoState pageNode [[]] [''document'']) =
     (Inr (), demoState closeButton
        [[], ''Open'', ''Settings'', ''Settings'', ''Close'', ''Save'', ''Settings'', ''Settings'',
         ''Close'']
        [''document'', ''button, Open'', ''dialog, Settings'', ''dialog, Settings'', ''button, Close'',
         ''button, Save'', ''end of dialog, Settings'', ''dialog, Settings'', ''button, Close''])"
  by (simp add: eval_nat_numeral engine_defs demo_defs)

theorem next_trapped_by_modal_counterexample:
  "length (fst (getModalAccessibilityTree (demoEnv demoTree ''true'')
                  (snd (start (demoEnv demoTree ''true'') demoOptions initial)))) = 7 \<and>
   activeNode (snd (start (demoEnv demoTree ''true'') demoOptions initial)) = Some pageNode \<and>
   fst (nextTimes 7 (demoEnv demoTree ''true'')
          (snd (start (demoEnv demoTree ''true'') demoOptions initial))) = Inr () \<and>
   activeNode (snd (nextTimes 7 (demoEnv demoTree ''true'')
          (snd (start (demoEnv demoTree ''true'') demoOptions initial)))) = Some closeButton \<and>
   closeButton \<noteq> pageNode"
proof -
  have t: "fst (getModalAccessibilityTree (demoEnv demoTree ''true'') (demoState pageNode [[]] [''document'']))
             = demoTree"
    by (simp add: engine_defs demo_defs)
  have l: "length demoTree = 7"
    by (simp add: demoTree_def)
  have a: "activeNode (demoState n ts ps) = Some n" for n ts ps
    by (simp add: demoState_def)
  have d: "closeButton \<noteq> pageNode"
    by (simp add: closeButton_def pageNode_def mkNode_def)
  show ?thesis
    by (simp add: start_demo nextTimes_modal_demo t l a d)
qed

text \<open>
  On the page whose dialog is not \<^verbatim>\<open>aria-modal\<close>: from the first entry \<^verbatim>\<open>next()\<close> moves to
  the second and seven calls go round the seven entries; from the last entry \<^verbatim>\<open>next()\<close>
  wraps to the first. Inside the modal dialog: four calls go round its four entries.
\<close>

theorem next_cycle_witness:
  "activeNode (snd (next_op (demoEnv demoTree ''false'') (demoState pageNode [[]] [''document''])))
     = Some openButton \<and>
   fst (nextTimes 7 (demoEnv demoTree ''false'') (demoState pageNode [[]] [''document''])) = Inr () \<and>
   activeNode (snd (nextTimes 7 (demoEnv demoTree ''false'') (demoState pageNode [[]] [''document''])))
     = Some pageNode \<and>
   activeNode (snd (next_op (demoEnv demoTree ''false'') (demoState endOfPage [[]] [''end of document''])))
     = Some pageNode \<and>
   length (fst (getModalAccessibilityTree (demoEnv demoTree ''true'')
                  (demoState saveButton [''Save''] [''button, Save'']))) = 4 \<and>
   fst (nextTimes 4 (demoEnv demoTree ''true'') (demoState saveButton [''Save''] [''button, Save''])) = Inr () \<and>
   activeNode (snd (nextTimes 4 (demoEnv demoTree ''true'') (demoState saveButton [''Save''] [''button, Save''])))
     = Some saveButton"
proof -
  let ?F = "demoEnv demoTree ''false''"
  let ?M = "demoEnv demoTree ''true''"
  let ?P = "demoState pageNode [[]] [''document'']"
  let ?L = "demoState endOfPage [[]] [''end of document'']"
  let ?S = "demoState saveButton [''Save''] [''button, Save'']"
  let ?D = "[dialogNode, closeButton, saveButton, endOfDialog]"
  have syn: "synthesize (demoEnv tree m) 0 = tree" for tree m
    by (simp add: demoEnv_def)
  have c: "container (demoState n ts ps) = Some 0" for n ts ps
    by (simp add: demoState_def)
  have k: "treeCache (demoState n ts ps) = None \<or>
           treeCache (demoState n ts ps) = Some (synthesize (demoEnv demoTree m) 0)" for n ts ps m
    by (simp add: demoState_def syn)
  have a: "activeNode (demoState n ts ps) = Some n" for n ts ps
    by (simp add: demoState_def)
  have mem: "pageNode \<in> set (synthesize (demoEnv demoTree m) 0)"
    "endOfPage \<in> set (synthesize (demoEnv demoTree m) 0)"
    "saveButton \<in> set (synthesize (demoEnv demoTree m) 0)" for m
    by (simp_all add: syn demoTree_def)
  have dist: "distinct (map identity (synthesize (demoEnv demoTree m) 0))" for m
    by (simp add: syn identity_def demo_defs)
  have listed: "dialogsListed (synthesize (demoEnv demoTree m) 0)" for m
    by (simp add: syn dialogsListed_def demo_defs)
  have plain: "isModal ?F n \<or> list_all (\<lambda>n. \<not> isModal ?F n) (synthesize ?F 0)" for n
    by (simp add: syn isModal_def demo_defs)
  have modal: "isModal ?M saveButton \<or> list_all (\<lambda>n. \<not> isModal ?M n) (synthesize ?M 0)"
    by (simp add: isModal_def demo_defs)
  have tp: "demoTree = fst (getModalAccessibilityTree ?F ?P)"
    and tl: "demoTree = fst (getModalAccessibilityTree ?F ?L)"
    and ts: "?D = fst (getModalAccessibilityTree ?M ?S)"
    by (simp_all add: engine_defs demo_defs)
  have ixp: "0 = nat (getCurrentIndex ?P demoTree)"
    and ixl: "6 = nat (getCurrentIndex ?L demoTree)"
    and ixs: "2 = nat (getCurrentIndex ?S ?D)"
    by (simp_all add: engine_defs demo_defs)
  have first: "activeNode (snd (next_op ?F ?P)) = Some openButton
      \<and> fst (nextTimes 7 ?F ?P) = Inr () \<and> activeNode (snd (nextTimes 7 ?F ?P)) = Some pageNode"
    using next_cycle [OF c k a mem(1) dist listed plain tp ixp]
    by (simp add: demoTree_def)
  have last: "activeNode (snd (next_op ?F ?L)) = Some pageNode"
    using next_cycle [OF c k a mem(2) dist listed plain tl ixl]
    by (simp add: demoTree_def)
  have inside: "length (fst (getModalAccessibilityTree ?M ?S)) = 4
      \<and> fst (nextTimes 4 ?M ?S) = Inr () \<and> activeNode (snd (nextTimes 4 ?M ?S)) = Some saveButton"
    using next_cycle [OF c k a mem(3) dist listed modal ts ixs] ts [symmetric]
    by simp
  from first last inside show ?thesis
    by blast
qed

end
